theory Spec2Isabelle
  imports Main "HOL-Library.Word"
begin

unbundle bit_operations_syntax

chapter \<open>utcp: a userspace TCP\<close>

text \<open>
  A shallow embedding of \<^verbatim>\<open>utcp.c\<close> and \<^verbatim>\<open>utcp_priv.h\<close>. Every C function is a HOL
  function of the same name that takes the objects the C function reaches through its
  pointers and gives them back as they are afterwards, together with the return value,
  the value assigned to \<^verbatim>\<open>errno\<close> and the calls made to the callbacks, in order.
  A function that can stop the process or loop has the result type
  \<open>(crash + r) option\<close>: \<open>None\<close> when the call runs forever, \<open>Some (Inl x)\<close> when the process
  stops (\<^verbatim>\<open>abort\<close>, a failed \<^verbatim>\<open>assert\<close>, undefined behaviour), \<open>Some (Inr r)\<close> when the call
  returns. Unsigned C integers are words; \<^verbatim>\<open>int32_t\<close> values are integers, with the
  conversions from and to \<^verbatim>\<open>uint32_t\<close> written out (\<open>sint\<close>, \<open>word_of_int\<close>).
\<close>

section \<open>Data model (utcp\_priv.h)\<close>

type_synonym u16 = "16 word"
type_synonym u32 = "32 word"
type_synonym byte = "8 word"

text \<open>The control flags of \<^verbatim>\<open>utcp_priv.h\<close>.\<close>

definition SYN :: u16 where "SYN = 1"
definition ACK :: u16 where "ACK = 2"
definition FIN :: u16 where "FIN = 4"
definition RST :: u16 where "RST = 8"

text \<open>\<^verbatim>\<open>struct hdr\<close>. The fields carry the prefix \<open>hdr_\<close> because the connection has
  fields \<open>src\<close> and \<open>dst\<close> of its own and \<open>ack\<close> is also the name of the egress engine.\<close>

record hdr =
  hdr_src :: u16
  hdr_dst :: u16
  hdr_seq :: u32
  hdr_ack :: u32
  hdr_wnd :: u32
  hdr_ctl :: u16
  hdr_aux :: u16

text \<open>\<^verbatim>\<open>sizeof(struct hdr)\<close>: two 16-bit ports, three 32-bit numbers, two 16-bit fields,
  every field naturally aligned, so no padding.\<close>

definition sizeof_hdr :: nat where
  "sizeof_hdr = 2 + 2 + 4 + 4 + 4 + 2 + 2"

datatype state =
  CLOSED | LISTEN | SYN_SENT | SYN_RECEIVED | ESTABLISHED
  | FIN_WAIT_1 | FIN_WAIT_2 | CLOSE_WAIT | CLOSING | LAST_ACK | TIME_WAIT

text \<open>\<^verbatim>\<open>struct timeval\<close>, with \<^verbatim>\<open>timerclear\<close>, \<^verbatim>\<open>timerisset\<close> and
  \<^verbatim>\<open>timercmp(a, b, <)\<close> of \<^verbatim>\<open>sys/time.h\<close>.\<close>

record timeval =
  tv_sec :: int
  tv_usec :: int

definition timerclear :: timeval where
  "timerclear = \<lparr>tv_sec = 0, tv_usec = 0\<rparr>"

definition timerisset :: "timeval \<Rightarrow> bool" where
  "timerisset t = (tv_sec t \<noteq> 0 \<or> tv_usec t \<noteq> 0)"

definition timer_less :: "timeval \<Rightarrow> timeval \<Rightarrow> bool" where
  "timer_less a b = (if tv_sec a = tv_sec b then tv_usec a < tv_usec b else tv_sec a < tv_sec b)"

text \<open>\<^verbatim>\<open>struct utcp_connection\<close>. A function pointer is its address (\<open>0\<close> is \<^verbatim>\<open>NULL\<close>); what
  the application's callbacks do when called is an argument of the operation that calls
  them. The back pointer \<^verbatim>\<open>c->utcp\<close> is not a field: every operation takes the host.

  Modelled from the spec: the fields \<^verbatim>\<open>snd.last\<close>, \<^verbatim>\<open>snd.cwnd\<close>, \<^verbatim>\<open>dupack\<close>,
  \<^verbatim>\<open>maxsndbufsize\<close>, \<^verbatim>\<open>poll\<close>, \<^verbatim>\<open>nodelay\<close> and \<^verbatim>\<open>keepalive\<close> are used by the code, and
  the struct declaration under src/ does not have them. \<^verbatim>\<open>snd.last\<close> is a sequence number
  and \<^verbatim>\<open>snd.cwnd\<close> and \<^verbatim>\<open>maxsndbufsize\<close> are byte counts compared with \<^verbatim>\<open>sndbufsize\<close>: all
  three are \<^verbatim>\<open>uint32_t\<close> like their neighbours; \<^verbatim>\<open>dupack\<close> is a counter, an \<^verbatim>\<open>int\<close>.\<close>

record utcp_connection =
  priv :: nat
  reapable :: bool
  nodelay :: bool
  keepalive :: bool
  src :: u16
  dst :: u16
  state :: state
  snd_una :: u32
  snd_nxt :: u32
  snd_wnd :: u32
  snd_iss :: u32
  snd_last :: u32
  snd_cwnd :: u32
  rcv_nxt :: u32
  rcv_wnd :: u32
  rcv_irs :: u32
  dupack :: int
  recv :: nat
  poll :: nat
  conn_timeout :: timeval
  rtrx_timeout :: timeval
  sndbuf :: "byte list"
  sndbufsize :: u32
  maxsndbufsize :: u32

text \<open>\<^verbatim>\<open>struct utcp\<close>. The egress callback \<^verbatim>\<open>send\<close> is required by \<^verbatim>\<open>utcp_init\<close>, so it is
  always there; \<^verbatim>\<open>accept\<close> and \<^verbatim>\<open>pre_accept\<close> are addresses. The array \<^verbatim>\<open>connections\<close>
  with its length \<^verbatim>\<open>nconnections\<close> is a list.\<close>

record utcp =
  accept :: nat
  pre_accept :: nat
  mtu :: u16
  timeout :: int
  connections :: "utcp_connection list"

text \<open>What a call hands to the outside, in the order of the calls: a datagram given to
  the egress callback \<^verbatim>\<open>utcp->send\<close> (header and payload), or a call of an application
  callback. A callback on a connection is recorded with the connection's \<^verbatim>\<open>src\<close> and
  \<^verbatim>\<open>dst\<close>; \<open>Recv_cb\<close> has the data handed over (\<open>None\<close> for \<^verbatim>\<open>recv(c, NULL, 0)\<close>),
  \<open>Pre_accept_cb\<close> the port, \<open>Poll_cb\<close> the number of bytes.\<close>

datatype event =
  Send hdr "byte list"
  | Recv_cb u16 u16 "byte list option"
  | Accept_cb u16 u16
  | Pre_accept_cb u16
  | Poll_cb u16 u16 nat

text \<open>The ways a call does not return to its caller with a value, other than by running
  forever (which is the result \<open>None\<close>): \<^verbatim>\<open>abort()\<close> or a failed \<^verbatim>\<open>assert\<close>, and
  undefined behaviour (a read or write outside the send buffer, a signed overflow).\<close>

datatype crash = Aborted | Undefined

text \<open>The values of \<^verbatim>\<open>errno\<close> the code assigns; \<open>E0\<close> is the value 0.\<close>

datatype errno =
  EFAULT | EBADMSG | EBADF | ENOTCONN | EPIPE | EWOULDBLOCK
  | ECONNREFUSED | ECONNRESET | ETIMEDOUT | EADDRINUSE | ENOMEM | E0

section \<open>Sequence arithmetic and state changes\<close>

text \<open>\<^verbatim>\<open>seqdiff\<close>: the difference of two 32-bit sequence numbers, read as \<^verbatim>\<open>int32_t\<close>.\<close>

definition seqdiff :: "u32 \<Rightarrow> u32 \<Rightarrow> int" where
  "seqdiff a b = sint (a - b)"

definition set_state :: "utcp_connection \<Rightarrow> state \<Rightarrow> utcp_connection" where
  "set_state c s =
     (let c = c\<lparr>state := s\<rparr>
      in if s = ESTABLISHED then c\<lparr>conn_timeout := timerclear\<rparr> else c)"

section \<open>The egress engine\<close>

text \<open>\<^verbatim>\<open>memcpy\<close> out of a buffer: \<open>n\<close> bytes at offset \<open>off\<close>. Reading beyond the allocation
  (or before it) is undefined behaviour, the result \<open>None\<close>; copying no byte reads
  nothing.\<close>

definition buf_read :: "byte list \<Rightarrow> int \<Rightarrow> nat \<Rightarrow> byte list option" where
  "buf_read buf off n =
     (if n = 0 then Some []
      else if 0 \<le> off \<and> nat off + n \<le> length buf then Some (take n (drop (nat off) buf))
      else None)"

text \<open>One pass through the body of the \<^verbatim>\<open>do ... while(left)\<close> loop of \<^verbatim>\<open>ack\<close>. \<open>pkt\<close>
  is the header of the packet buffer, \<open>off\<close> is \<^verbatim>\<open>data - c->sndbuf\<close> and \<open>left\<close> the
  \<^verbatim>\<open>int32_t\<close> of that name. The result is the four of them afterwards and the segment
  handed to the egress callback, or \<open>None\<close> when \<^verbatim>\<open>memcpy\<close> reads outside the send
  buffer.\<close>

definition ack_body ::
  "u16 \<Rightarrow> utcp_connection \<Rightarrow> hdr \<Rightarrow> int \<Rightarrow> int
     \<Rightarrow> (utcp_connection \<times> hdr \<times> int \<times> int \<times> event) option" where
  "ack_body m c pkt off left =
     (let seglen = (word_of_int (if left > uint m then uint m else left) :: u32);
          pkt = pkt\<lparr>hdr_seq := snd_nxt c\<rparr>
      in case buf_read (sndbuf c) off (unat seglen) of
           None \<Rightarrow> None
         | Some bytes \<Rightarrow>
            (let c = c\<lparr>snd_nxt := snd_nxt c + seglen\<rparr>;
                 off = off + uint seglen;
                 left = sint ((word_of_int left :: u32) - seglen);
                 fin = (state c \<noteq> ESTABLISHED \<and> left = 0 \<and> seglen \<noteq> 0
                          \<and> (state c = FIN_WAIT_1 \<or> state c = CLOSING));
                 seglen = (if fin then seglen - 1 else seglen);
                 pkt = (if fin then pkt\<lparr>hdr_ctl := hdr_ctl pkt OR FIN\<rparr> else pkt)
             in Some (c, pkt, off, left, Send pkt (take (unat seglen) bytes))))"

text \<open>The loop itself; \<open>evs\<close> is what was sent so far. It need not end (an MTU of 0 with
  bytes left).\<close>

partial_function (option) ack_loop ::
  "u16 \<Rightarrow> utcp_connection \<Rightarrow> hdr \<Rightarrow> int \<Rightarrow> int \<Rightarrow> event list
     \<Rightarrow> (crash + utcp_connection \<times> event list) option" where
  "ack_loop m c pkt off left evs =
     (case ack_body m c pkt off left of
        None \<Rightarrow> Some (Inl Undefined)
      | Some (c, pkt, off, left, e) \<Rightarrow>
          if left \<noteq> 0 then ack_loop m c pkt off left (evs @ [e])
          else Some (Inr (c, evs @ [e])))"

declare ack_loop.simps [code]

text \<open>\<^verbatim>\<open>ack(c, sendatleastone)\<close>. The packet buffer is taken to be allocated (the test
  after \<^verbatim>\<open>malloc\<close> looks at the address of a member, which is never null).\<close>

definition ack ::
  "utcp \<Rightarrow> utcp_connection \<Rightarrow> bool \<Rightarrow> (crash + utcp_connection \<times> event list) option" where
  "ack u c sendatleastone =
     (let left = seqdiff (snd_last c) (snd_nxt c);
          cwndleft = sint (snd_cwnd c - word_of_int (seqdiff (snd_nxt c) (snd_una c)));
          off = seqdiff (snd_nxt c) (snd_una c)
      in if left < 0 then Some (Inl Aborted)
         else
          (let cwndleft = (if cwndleft \<le> 0 then 0 else cwndleft);
               left = (if cwndleft < left then cwndleft else left)
           in if left = 0 \<and> \<not> sendatleastone then Some (Inr (c, []))
              else ack_loop (mtu u) c
                     \<lparr>hdr_src = src c, hdr_dst = dst c, hdr_seq = 0, hdr_ack = rcv_nxt c,
                      hdr_wnd = snd_wnd c, hdr_ctl = ACK, hdr_aux = 0\<rparr>
                     off left []))"

section \<open>Operations on a connection\<close>

text \<open>The arguments \<^verbatim>\<open>(const void *data, size_t len)\<close>: a null pointer with a length, or a
  buffer holding \<open>len\<close> bytes. \<^verbatim>\<open>size_t\<close> values are natural numbers (no buffer in memory
  is long enough for them to wrap).\<close>

datatype cbuf = Null nat | Buf "byte list"

fun buf_len :: "cbuf \<Rightarrow> nat" where
  "buf_len (Null n) = n"
| "buf_len (Buf bs) = length bs"

text \<open>What a call on a connection gives back: the return value, the value it assigned to
  \<^verbatim>\<open>errno\<close> (\<open>None\<close>: \<^verbatim>\<open>errno\<close> was not assigned), the connection afterwards (\<open>None\<close>
  for a null pointer) and the calls it made to the outside.\<close>

record conn_result =
  ret :: int
  err :: "errno option"
  conn :: "utcp_connection option"
  out :: "event list"

text \<open>\<^verbatim>\<open>realloc\<close> of the send buffer to \<open>n\<close> bytes: the old contents up to \<open>n\<close>, then
  whatever the allocator left there (\<open>pad\<close>, zero beyond it).\<close>

definition realloc_buf :: "nat \<Rightarrow> byte list \<Rightarrow> byte list \<Rightarrow> byte list" where
  "realloc_buf n old pad = take n (old @ pad) @ replicate (n - length (old @ pad)) 0"

text \<open>\<^verbatim>\<open>memcpy\<close> into a buffer at offset \<open>off\<close>; writing beyond the allocation is
  undefined behaviour, the result \<open>None\<close>.\<close>

definition buf_write :: "byte list \<Rightarrow> nat \<Rightarrow> byte list \<Rightarrow> byte list option" where
  "buf_write buf off bs =
     (if off + length bs \<le> length buf
      then Some (take off buf @ bs @ drop (off + length bs) buf)
      else None)"

text \<open>The part of \<^verbatim>\<open>utcp_send\<close> after the switch on the state (``Add data to send
  buffer''). \<open>grow\<close> says what \<^verbatim>\<open>realloc\<close> does if it is called: \<open>None\<close> when it fails,
  \<open>Some pad\<close> when it succeeds. The statement \<^verbatim>\<open>errno == EWOULDBLOCK;\<close> compares and
  assigns nothing.\<close>

definition send_data ::
  "utcp \<Rightarrow> byte list option \<Rightarrow> utcp_connection \<Rightarrow> cbuf \<Rightarrow> (crash + conn_result) option" where
  "send_data u grow c data =
     (if buf_len data = 0 then Some (Inr \<lparr>ret = 0, err = None, conn = Some c, out = []\<rparr>)
      else case data of
        Null n \<Rightarrow> Some (Inr \<lparr>ret = - 1, err = Some EFAULT, conn = Some c, out = []\<rparr>)
      | Buf bs \<Rightarrow>
         (let len = length bs;
              bufused = (word_of_int (seqdiff (snd_nxt c) (snd_una c)) :: u32);
              c = (if len > unat (sndbufsize c - bufused) \<and> sndbufsize c < maxsndbufsize c
                   then
                    (let newbufsize =
                           (if sndbufsize c > maxsndbufsize c div 2 then maxsndbufsize c
                            else sndbufsize c * 2);
                         newbufsize =
                           (if unat bufused + len > unat newbufsize
                            then (if unat bufused + len > unat (maxsndbufsize c)
                                  then maxsndbufsize c
                                  else of_nat (unat bufused + len))
                            else newbufsize)
                     in case grow of
                          None \<Rightarrow> c
                        | Some pad \<Rightarrow>
                            c\<lparr>sndbuf := realloc_buf (unat newbufsize) (sndbuf c) pad,
                              sndbufsize := newbufsize\<rparr>)
                   else c);
              len = (if len > unat (sndbufsize c - bufused) then unat (sndbufsize c - bufused)
                     else len)
          in if len = 0 then Some (Inr \<lparr>ret = 0, err = None, conn = Some c, out = []\<rparr>)
             else case buf_write (sndbuf c) (unat bufused) (take len bs) of
               None \<Rightarrow> Some (Inl Undefined)
             | Some b \<Rightarrow>
                (case ack u (c\<lparr>sndbuf := b, snd_last := snd_last c + of_nat len\<rparr>) False of
                   None \<Rightarrow> None
                 | Some (Inl e) \<Rightarrow> Some (Inl e)
                 | Some (Inr (c, evs)) \<Rightarrow>
                     Some (Inr \<lparr>ret = int len, err = None, conn = Some c, out = evs\<rparr>))))"

definition utcp_send ::
  "utcp \<Rightarrow> byte list option \<Rightarrow> utcp_connection \<Rightarrow> cbuf \<Rightarrow> (crash + conn_result) option" where
  "utcp_send u grow c data =
     (if reapable c
      then Some (Inr \<lparr>ret = - 1, err = Some EBADF, conn = Some c, out = []\<rparr>)
      else case state c of
        CLOSED \<Rightarrow> Some (Inr \<lparr>ret = - 1, err = Some ENOTCONN, conn = Some c, out = []\<rparr>)
      | LISTEN \<Rightarrow> Some (Inr \<lparr>ret = - 1, err = Some ENOTCONN, conn = Some c, out = []\<rparr>)
      | SYN_SENT \<Rightarrow> Some (Inr \<lparr>ret = - 1, err = Some ENOTCONN, conn = Some c, out = []\<rparr>)
      | SYN_RECEIVED \<Rightarrow> Some (Inr \<lparr>ret = - 1, err = Some ENOTCONN, conn = Some c, out = []\<rparr>)
      | ESTABLISHED \<Rightarrow> send_data u grow c data
      | CLOSE_WAIT \<Rightarrow> send_data u grow c data
      | FIN_WAIT_1 \<Rightarrow> Some (Inr \<lparr>ret = - 1, err = Some EPIPE, conn = Some c, out = []\<rparr>)
      | FIN_WAIT_2 \<Rightarrow> Some (Inr \<lparr>ret = - 1, err = Some EPIPE, conn = Some c, out = []\<rparr>)
      | CLOSING \<Rightarrow> Some (Inr \<lparr>ret = - 1, err = Some EPIPE, conn = Some c, out = []\<rparr>)
      | LAST_ACK \<Rightarrow> Some (Inr \<lparr>ret = - 1, err = Some EPIPE, conn = Some c, out = []\<rparr>)
      | TIME_WAIT \<Rightarrow> Some (Inr \<lparr>ret = - 1, err = Some EPIPE, conn = Some c, out = []\<rparr>))"

text \<open>The end of \<^verbatim>\<open>utcp_shutdown\<close>, after a \<^verbatim>\<open>break\<close> of its switch: queue the FIN and
  call the egress engine.\<close>

definition shutdown_fin :: "utcp \<Rightarrow> utcp_connection \<Rightarrow> (crash + conn_result) option" where
  "shutdown_fin u c =
     (case ack u (c\<lparr>snd_last := snd_last c + 1\<rparr>) False of
        None \<Rightarrow> None
      | Some (Inl e) \<Rightarrow> Some (Inl e)
      | Some (Inr (c, evs)) \<Rightarrow> Some (Inr \<lparr>ret = 0, err = None, conn = Some c, out = evs\<rparr>))"

text \<open>\<^verbatim>\<open>utcp_shutdown(c, dir)\<close>; the connection is \<open>None\<close> for a null pointer. \<open>dir\<close> is
  not looked at.\<close>

definition utcp_shutdown ::
  "utcp \<Rightarrow> utcp_connection option \<Rightarrow> int \<Rightarrow> (crash + conn_result) option" where
  "utcp_shutdown u cp dir =
     (case cp of
        None \<Rightarrow> Some (Inr \<lparr>ret = - 1, err = Some EFAULT, conn = None, out = []\<rparr>)
      | Some c \<Rightarrow>
         if reapable c
         then Some (Inr \<lparr>ret = - 1, err = Some EBADF, conn = Some c, out = []\<rparr>)
         else case state c of
           CLOSED \<Rightarrow> Some (Inr \<lparr>ret = 0, err = None, conn = Some c, out = []\<rparr>)
         | LISTEN \<Rightarrow>
             Some (Inr \<lparr>ret = 0, err = None, conn = Some (set_state c CLOSED), out = []\<rparr>)
         | SYN_SENT \<Rightarrow>
             Some (Inr \<lparr>ret = 0, err = None, conn = Some (set_state c CLOSED), out = []\<rparr>)
         | SYN_RECEIVED \<Rightarrow> shutdown_fin u (set_state c FIN_WAIT_1)
         | ESTABLISHED \<Rightarrow> shutdown_fin u (set_state c FIN_WAIT_1)
         | FIN_WAIT_1 \<Rightarrow> Some (Inr \<lparr>ret = 0, err = None, conn = Some c, out = []\<rparr>)
         | FIN_WAIT_2 \<Rightarrow> Some (Inr \<lparr>ret = 0, err = None, conn = Some c, out = []\<rparr>)
         | CLOSE_WAIT \<Rightarrow> shutdown_fin u (set_state c CLOSING)
         | CLOSING \<Rightarrow> Some (Inr \<lparr>ret = 0, err = None, conn = Some c, out = []\<rparr>)
         | LAST_ACK \<Rightarrow> Some (Inr \<lparr>ret = 0, err = None, conn = Some c, out = []\<rparr>)
         | TIME_WAIT \<Rightarrow> Some (Inr \<lparr>ret = 0, err = None, conn = Some c, out = []\<rparr>))"

text \<open>The segments among the events of a call: what went to the egress callback.\<close>

fun segments :: "event list \<Rightarrow> (hdr \<times> byte list) list" where
  "segments [] = []"
| "segments (Send h p # es) = (h, p) # segments es"
| "segments (_ # es) = segments es"

section \<open>Inbound segments for a connection\<close>

text \<open>What the code takes from outside while it handles a call, as arguments:
  \<^item> \<open>now\<close>: what \<^verbatim>\<open>gettimeofday\<close> gives;
  \<^item> \<open>stale\<close>: the value found in \<^verbatim>\<open>prevrcvnxt\<close> when \<^verbatim>\<open>goto ack\<close> has jumped over its
    initialisation (the variable is in scope at the label and was never assigned: the
    value is indeterminate, and any value is allowed for here);
  \<^item> \<open>rxd\<close>: what the application's \<^verbatim>\<open>recv\<close> callback returns when it is handed payload;
  \<^item> \<open>on_accept\<close>: what the application's \<^verbatim>\<open>accept\<close> callback does with the
    connection: \<open>Some (r, p)\<close> when it calls \<^verbatim>\<open>utcp_accept(c, r, p)\<close>, \<open>None\<close> when it
    leaves the connection alone;
  \<^item> \<open>on_pre_accept\<close>: what the \<^verbatim>\<open>pre_accept\<close> callback returns;
  \<^item> \<open>rand_port\<close>, \<open>rand_iss\<close>: the values of the two calls of \<^verbatim>\<open>rand()\<close>;
  \<^item> \<open>alloc_ok\<close>: whether \<^verbatim>\<open>realloc\<close>, \<^verbatim>\<open>calloc\<close> and \<^verbatim>\<open>malloc\<close> succeed in
    \<^verbatim>\<open>allocate_connection\<close>; \<open>heap\<close>: the bytes a fresh send buffer holds;
    \<open>heap_hdr\<close>: the contents of a fresh packet buffer's header;
  \<^item> \<open>big_endian\<close>: the host's byte order.
  The callbacks do not call back into the library, but for \<^verbatim>\<open>utcp_accept\<close> from the
  \<^verbatim>\<open>accept\<close> callback.

  Modelled from the spec: the macros \<^verbatim>\<open>DEFAULT_SNDBUFSIZE\<close> and \<^verbatim>\<open>DEFAULT_MAXSNDBUFSIZE\<close>
  are not under src/; they are the arguments \<open>default_sndbufsize\<close> and
  \<open>default_maxsndbufsize\<close>.\<close>

record env =
  now :: timeval
  stale :: u32
  rxd :: int
  on_accept :: "(nat \<times> nat) option"
  on_pre_accept :: bool
  rand_port :: int
  rand_iss :: int
  alloc_ok :: bool
  heap :: "byte list"
  heap_hdr :: hdr
  big_endian :: bool
  default_sndbufsize :: u32
  default_maxsndbufsize :: u32

definition utcp_accept :: "utcp_connection \<Rightarrow> nat \<Rightarrow> nat \<Rightarrow> utcp_connection" where
  "utcp_accept c r p =
     (if reapable c \<or> state c \<noteq> SYN_RECEIVED then c
      else set_state (c\<lparr>recv := r, priv := p\<rparr>) ESTABLISHED)"

text \<open>The label \<^verbatim>\<open>reset:\<close> of \<^verbatim>\<open>utcp_recv\<close>: the RST segment built from the inbound
  header \<open>h\<close> and the current \<^verbatim>\<open>len\<close>.\<close>

definition reset :: "hdr \<Rightarrow> nat \<Rightarrow> event" where
  "reset h len =
     (let h = h\<lparr>hdr_src := hdr_dst h, hdr_dst := hdr_src h\<rparr>;
          h = h\<lparr>hdr_wnd := 0\<rparr>;
          h = (if hdr_ctl h AND ACK \<noteq> 0
               then h\<lparr>hdr_seq := hdr_ack h, hdr_ctl := RST\<rparr>
               else h\<lparr>hdr_ack := hdr_seq h + of_nat len, hdr_seq := 0, hdr_ctl := RST OR ACK\<rparr>)
      in Send h [])"

text \<open>The label \<^verbatim>\<open>ack:\<close> of \<^verbatim>\<open>utcp_recv\<close>: \<^verbatim>\<open>ack(c, prevrcvnxt != c->rcv.nxt); return 0;\<close>
  after the events \<open>evs\<close>, with \<^verbatim>\<open>errno\<close> as \<open>er\<close>.\<close>

definition goto_ack ::
  "utcp \<Rightarrow> utcp_connection \<Rightarrow> u32 \<Rightarrow> errno option \<Rightarrow> event list
     \<Rightarrow> (crash + conn_result) option" where
  "goto_ack u c prevrcvnxt er evs =
     (case ack u c (prevrcvnxt \<noteq> rcv_nxt c) of
        None \<Rightarrow> None
      | Some (Inl x) \<Rightarrow> Some (Inl x)
      | Some (Inr (c, sent)) \<Rightarrow>
          Some (Inr \<lparr>ret = 0, err = er, conn = Some c, out = evs @ sent\<rparr>))"

text \<open>Step 1b: is the segment acceptable?\<close>

definition acceptable :: "utcp_connection \<Rightarrow> hdr \<Rightarrow> bool" where
  "acceptable c h = (if state c = SYN_SENT then True else hdr_seq h = rcv_nxt c)"

text \<open>Step 1c: an ACK number that rolls back or is beyond \<^verbatim>\<open>snd.nxt\<close>.\<close>

definition invalid_ack :: "utcp_connection \<Rightarrow> hdr \<Rightarrow> bool" where
  "invalid_ack c h =
     (hdr_ctl h AND ACK \<noteq> 0
      \<and> (seqdiff (hdr_ack h) (snd_nxt c) > 0 \<or> seqdiff (hdr_ack h) (snd_una c) < 0))"

text \<open>Step 2, for a segment with the RST flag. The result \<open>None\<close> for the connection is
  \<^verbatim>\<open>free_connection\<close>.\<close>

definition handle_rst :: "utcp_connection \<Rightarrow> hdr \<Rightarrow> crash + conn_result" where
  "handle_rst c h =
     (let with_ack = (hdr_ctl h AND ACK \<noteq> 0);
          dropped = \<lparr>ret = 0, err = None, conn = Some c, out = []\<rparr>;
          notify = (if recv c \<noteq> 0 then [Recv_cb (src c) (dst c) None] else [])
      in case state c of
           SYN_SENT \<Rightarrow>
             if \<not> with_ack then Inr dropped
             else Inr \<lparr>ret = 0, err = Some ECONNREFUSED, conn = Some (set_state c CLOSED),
                       out = notify\<rparr>
         | SYN_RECEIVED \<Rightarrow>
             if with_ack then Inr dropped
             else Inr \<lparr>ret = 0, err = None, conn = None, out = []\<rparr>
         | ESTABLISHED \<Rightarrow>
             if with_ack then Inr dropped
             else Inr \<lparr>ret = 0, err = Some ECONNRESET, conn = Some (set_state c CLOSED),
                       out = notify\<rparr>
         | FIN_WAIT_1 \<Rightarrow>
             if with_ack then Inr dropped
             else Inr \<lparr>ret = 0, err = Some ECONNRESET, conn = Some (set_state c CLOSED),
                       out = notify\<rparr>
         | FIN_WAIT_2 \<Rightarrow>
             if with_ack then Inr dropped
             else Inr \<lparr>ret = 0, err = Some ECONNRESET, conn = Some (set_state c CLOSED),
                       out = notify\<rparr>
         | CLOSE_WAIT \<Rightarrow>
             if with_ack then Inr dropped
             else Inr \<lparr>ret = 0, err = Some ECONNRESET, conn = Some (set_state c CLOSED),
                       out = notify\<rparr>
         | CLOSING \<Rightarrow>
             if with_ack then Inr dropped
             else if reapable c then Inr \<lparr>ret = 0, err = None, conn = None, out = []\<rparr>
             else Inr \<lparr>ret = 0, err = None, conn = Some (set_state c CLOSED), out = []\<rparr>
         | LAST_ACK \<Rightarrow>
             if with_ack then Inr dropped
             else if reapable c then Inr \<lparr>ret = 0, err = None, conn = None, out = []\<rparr>
             else Inr \<lparr>ret = 0, err = None, conn = Some (set_state c CLOSED), out = []\<rparr>
         | TIME_WAIT \<Rightarrow>
             if with_ack then Inr dropped
             else if reapable c then Inr \<lparr>ret = 0, err = None, conn = None, out = []\<rparr>
             else Inr \<lparr>ret = 0, err = None, conn = Some (set_state c CLOSED), out = []\<rparr>
         | CLOSED \<Rightarrow> Inl Aborted
         | LISTEN \<Rightarrow> Inl Aborted)"

text \<open>\<^verbatim>\<open>memmove(buf, buf + k, n)\<close>; reading beyond the allocation is undefined
  behaviour.\<close>

definition memmove_down :: "byte list \<Rightarrow> nat \<Rightarrow> nat \<Rightarrow> byte list option" where
  "memmove_down buf k n =
     (if k + n \<le> length buf then Some (take n (drop k buf) @ drop n buf) else None)"

text \<open>Step 3, ``Advance snd.una''. \<open>advanced\<close> is the \<^verbatim>\<open>uint32_t\<close> of that name and \<open>len\<close>
  the length of the payload. The two \<^verbatim>\<open>assert\<close>s abort; \<^verbatim>\<open>data_acked--\<close> on the least
  \<^verbatim>\<open>int32_t\<close> overflows, which is undefined behaviour.\<close>

definition advance_una ::
  "utcp \<Rightarrow> timeval \<Rightarrow> utcp_connection \<Rightarrow> hdr \<Rightarrow> u32 \<Rightarrow> nat \<Rightarrow> crash + utcp_connection" where
  "advance_una u tnow c h advanced len =
     (if advanced \<noteq> 0 then
        (let data_acked = sint advanced;
             data_acked = (if state c = SYN_SENT \<or> state c = SYN_RECEIVED
                           then data_acked - 1 else data_acked)
         in if data_acked < - (2 ^ 31) then Inl Undefined
            else if data_acked < 0 then Inl Aborted
            else
             (let bufused = seqdiff (snd_last c) (snd_una c)
              in if data_acked > bufused then Inl Aborted
                 else
                  (let left = (word_of_int (bufused - data_acked) :: u32)
                   in case (if data_acked \<noteq> 0 \<and> left \<noteq> 0
                            then memmove_down (sndbuf c) (nat data_acked) (unat left)
                            else Some (sndbuf c)) of
                        None \<Rightarrow> Inl Undefined
                      | Some b \<Rightarrow>
                         (let c = c\<lparr>sndbuf := b, snd_una := hdr_ack h, dupack := 0,
                                    snd_cwnd := snd_cwnd c + ucast (mtu u)\<rparr>;
                              c = (if snd_cwnd c > maxsndbufsize c
                                   then c\<lparr>snd_cwnd := maxsndbufsize c\<rparr> else c)
                          in Inr
                              (case state c of
                                 FIN_WAIT_1 \<Rightarrow>
                                   if snd_una c = snd_last c then set_state c FIN_WAIT_2 else c
                               | CLOSING \<Rightarrow>
                                   if snd_una c = snd_last c
                                   then set_state
                                          (c\<lparr>conn_timeout := tnow\<lparr>tv_sec := tv_sec tnow + 60\<rparr>\<rparr>)
                                          TIME_WAIT
                                   else c
                               | _ \<Rightarrow> c)))))
      else Inr (if len = 0 then c\<lparr>dupack := dupack c + 1\<rparr> else c))"

text \<open>Step 4, ``Update timers''.\<close>

definition update_timers :: "utcp_connection \<Rightarrow> u32 \<Rightarrow> utcp_connection" where
  "update_timers c advanced =
     (if advanced \<noteq> 0 then
        (let c = c\<lparr>conn_timeout := timerclear\<rparr>
         in if snd_una c = snd_nxt c then c\<lparr>rtrx_timeout := timerclear\<rparr> else c)
      else c)"

text \<open>How a step of \<^verbatim>\<open>utcp_recv\<close> ends: it goes on to the next step, it jumps to the label
  \<^verbatim>\<open>reset:\<close>, or the process stops. The events are the callbacks called on the way.\<close>

datatype flow =
  Go utcp_connection "event list"
  | Reset utcp_connection "event list"
  | Crash crash

text \<open>Step 5, ``Process SYN stuff''.\<close>

definition process_syn :: "utcp_connection \<Rightarrow> hdr \<Rightarrow> u32 \<Rightarrow> flow" where
  "process_syn c h advanced =
     (if hdr_ctl h AND SYN \<noteq> 0 then
        (case state c of
           SYN_SENT \<Rightarrow>
             if advanced = 0 then Reset c []
             else
              (let c = set_state (c\<lparr>rcv_irs := hdr_seq h, rcv_nxt := hdr_seq h\<rparr>) ESTABLISHED
               in Go (c\<lparr>rcv_nxt := rcv_nxt c + 1\<rparr>) [])
         | CLOSED \<Rightarrow> Crash Aborted
         | LISTEN \<Rightarrow> Crash Aborted
         | _ \<Rightarrow> Reset c [])
      else Go c [])"

text \<open>Step 6, first half: the ACK that completes the handshake of a connection in
  SYN\_RECEIVED.\<close>

definition process_accept :: "utcp \<Rightarrow> env \<Rightarrow> utcp_connection \<Rightarrow> u32 \<Rightarrow> flow" where
  "process_accept u e c advanced =
     (if state c = SYN_RECEIVED then
        (if advanced = 0 then Reset c []
         else
          (let evs = (if accept u \<noteq> 0 then [Accept_cb (src c) (dst c)] else []);
               c = (if accept u \<noteq> 0
                    then (case on_accept e of None \<Rightarrow> c | Some (r, p) \<Rightarrow> utcp_accept c r p)
                    else c)
           in if state c \<noteq> ESTABLISHED
              then Reset ((set_state c CLOSED)\<lparr>reapable := True\<rparr>) evs
              else Go c evs))
      else Go c [])"

text \<open>Step 6, second half: the payload. A \<^verbatim>\<open>recv\<close> callback that does not take all of it
  aborts.\<close>

definition process_data :: "env \<Rightarrow> utcp_connection \<Rightarrow> byte list \<Rightarrow> flow" where
  "process_data e c data =
     (if length data \<noteq> 0 then
        (let deliver =
               (if recv c \<noteq> 0 \<and> rxd e \<noteq> int (length data) then Crash Aborted
                else Go (c\<lparr>rcv_nxt := rcv_nxt c + of_nat (length data)\<rparr>)
                        (if recv c \<noteq> 0 then [Recv_cb (src c) (dst c) (Some data)] else []))
         in case state c of
              SYN_SENT \<Rightarrow> Crash Aborted
            | SYN_RECEIVED \<Rightarrow> Crash Aborted
            | ESTABLISHED \<Rightarrow> deliver
            | FIN_WAIT_1 \<Rightarrow> deliver
            | FIN_WAIT_2 \<Rightarrow> deliver
            | CLOSE_WAIT \<Rightarrow> Reset c []
            | CLOSING \<Rightarrow> Reset c []
            | LAST_ACK \<Rightarrow> Reset c []
            | TIME_WAIT \<Rightarrow> Reset c []
            | CLOSED \<Rightarrow> Crash Aborted
            | LISTEN \<Rightarrow> Crash Aborted)
      else Go c [])"

text \<open>Step 7, ``Process FIN stuff''. When the \<^verbatim>\<open>recv\<close> callback is told of the FIN,
  \<^verbatim>\<open>errno\<close> is set to 0 first.\<close>

definition process_fin :: "timeval \<Rightarrow> utcp_connection \<Rightarrow> hdr \<Rightarrow> flow" where
  "process_fin tnow c h =
     (if hdr_ctl h AND FIN \<noteq> 0 then
        (let told = (\<lambda>c. Go (c\<lparr>rcv_nxt := rcv_nxt c + 1\<rparr>)
                            (if recv c \<noteq> 0 then [Recv_cb (src c) (dst c) None] else []))
         in case state c of
              SYN_SENT \<Rightarrow> Crash Aborted
            | SYN_RECEIVED \<Rightarrow> Crash Aborted
            | ESTABLISHED \<Rightarrow> told (set_state c CLOSE_WAIT)
            | FIN_WAIT_1 \<Rightarrow> told (set_state c CLOSING)
            | FIN_WAIT_2 \<Rightarrow>
                told (set_state (c\<lparr>conn_timeout := tnow\<lparr>tv_sec := tv_sec tnow + 60\<rparr>\<rparr>) TIME_WAIT)
            | CLOSE_WAIT \<Rightarrow> Reset c []
            | CLOSING \<Rightarrow> Reset c []
            | LAST_ACK \<Rightarrow> Reset c []
            | TIME_WAIT \<Rightarrow> Reset c []
            | CLOSED \<Rightarrow> Crash Aborted
            | LISTEN \<Rightarrow> Crash Aborted)
      else Go c [])"

text \<open>Steps 3 to 7 and the label \<^verbatim>\<open>ack:\<close>, for a segment that passed steps 1 and 2.\<close>

definition process_segment ::
  "utcp \<Rightarrow> env \<Rightarrow> utcp_connection \<Rightarrow> hdr \<Rightarrow> byte list \<Rightarrow> (crash + conn_result) option" where
  "process_segment u e c h data =
     (let advanced = (word_of_int (seqdiff (hdr_ack h) (snd_una c)) :: u32);
          prevrcvnxt = rcv_nxt c;
          rst = (\<lambda>c evs. Some (Inr \<lparr>ret = 0, err = None, conn = Some c,
                                      out = evs @ [reset h (length data)]\<rparr>))
      in case advance_una u (now e) c h advanced (length data) of
           Inl x \<Rightarrow> Some (Inl x)
         | Inr c \<Rightarrow>
            (case process_syn (update_timers c advanced) h advanced of
               Crash x \<Rightarrow> Some (Inl x)
             | Reset c evs \<Rightarrow> rst c evs
             | Go c evs5 \<Rightarrow>
                (case process_accept u e c advanced of
                   Crash x \<Rightarrow> Some (Inl x)
                 | Reset c evs \<Rightarrow> rst c (evs5 @ evs)
                 | Go c evs6 \<Rightarrow>
                    (case process_data e c data of
                       Crash x \<Rightarrow> Some (Inl x)
                     | Reset c evs \<Rightarrow> rst c (evs5 @ evs6 @ evs)
                     | Go c evs6' \<Rightarrow>
                        (case process_fin (now e) c h of
                           Crash x \<Rightarrow> Some (Inl x)
                         | Reset c evs \<Rightarrow> rst c (evs5 @ evs6 @ evs6' @ evs)
                         | Go c evs7 \<Rightarrow>
                             goto_ack u c prevrcvnxt
                               (if hdr_ctl h AND FIN \<noteq> 0 \<and> recv c \<noteq> 0 then Some E0 else None)
                               (evs5 @ evs6 @ evs6' @ evs7))))))"

text \<open>\<^verbatim>\<open>utcp_recv\<close> from the point where the segment is matched to the connection \<open>c\<close>
  (``In case this is for a CLOSED connection, ignore the packet''), with the header \<open>h\<close>
  and the payload \<open>data\<close>.\<close>

definition utcp_recv_conn ::
  "utcp \<Rightarrow> env \<Rightarrow> utcp_connection \<Rightarrow> hdr \<Rightarrow> byte list \<Rightarrow> (crash + conn_result) option" where
  "utcp_recv_conn u e c h data =
     (if state c = CLOSED then Some (Inr \<lparr>ret = 0, err = None, conn = Some c, out = []\<rparr>)
      else if state c = LISTEN then Some (Inl Aborted)
      else if \<not> acceptable c h then
        (if hdr_ctl h AND RST \<noteq> 0
         then Some (Inr \<lparr>ret = 0, err = None, conn = Some c, out = []\<rparr>)
         else goto_ack u c (stale e) None [])
      else
       (let c = c\<lparr>snd_wnd := hdr_wnd h\<rparr>
        in if invalid_ack c h then
             (if hdr_ctl h AND RST \<noteq> 0
              then Some (Inr \<lparr>ret = 0, err = None, conn = Some c, out = []\<rparr>)
              else Some (Inr \<lparr>ret = 0, err = None, conn = Some c,
                               out = [reset h (length data)]\<rparr>))
           else if hdr_ctl h AND RST \<noteq> 0 then Some (handle_rst c h)
           else process_segment u e c h data))"

section \<open>The host: lookup, new connections, inbound datagrams\<close>

text \<open>\<^verbatim>\<open>compare\<close>, the order of the array of connections: by \<^verbatim>\<open>src\<close>, then by
  \<^verbatim>\<open>dst\<close>.\<close>

definition compare :: "utcp_connection \<Rightarrow> utcp_connection \<Rightarrow> int" where
  "compare a b =
     (let c = uint (src a) - uint (src b)
      in if c \<noteq> 0 then c else uint (dst a) - uint (dst b))"

fun find_pos :: "('a \<Rightarrow> bool) \<Rightarrow> 'a list \<Rightarrow> nat option" where
  "find_pos P [] = None"
| "find_pos P (x # xs) = (if P x then Some 0 else map_option Suc (find_pos P xs))"

text \<open>\<^verbatim>\<open>find_connection\<close>: the position of the connection with the key \<open>(s, d)\<close>.
  The array is sorted and no two connections have the same key, so \<^verbatim>\<open>bsearch\<close> finds
  the one match if there is one. \<^verbatim>\<open>bsearch\<close> calls \<^verbatim>\<open>compare\<close> with the key first, and
  \<^verbatim>\<open>compare\<close> asserts that \<^verbatim>\<open>src\<close> is not 0: a lookup of \<open>s = 0\<close> in a host that has
  connections aborts.\<close>

definition find_connection :: "utcp \<Rightarrow> u16 \<Rightarrow> u16 \<Rightarrow> crash + nat option" where
  "find_connection u s d =
     (if connections u = [] then Inr None
      else if s = 0 then Inl Aborted
      else Inr (find_pos (\<lambda>c. src c = s \<and> dst c = d) (connections u)))"

text \<open>\<^verbatim>\<open>free_connection\<close>, on the array: the entry at position \<open>i\<close> goes.\<close>

definition free_connection :: "utcp_connection list \<Rightarrow> nat \<Rightarrow> utcp_connection list" where
  "free_connection cs i = take i cs @ drop (Suc i) cs"

text \<open>The loop \<^verbatim>\<open>while(find_connection(utcp, src, dst)) src++;\<close> of
  \<^verbatim>\<open>allocate_connection\<close>.\<close>

partial_function (option) free_port :: "utcp \<Rightarrow> u16 \<Rightarrow> u16 \<Rightarrow> (crash + u16) option" where
  "free_port u s d =
     (case find_connection u s d of
        Inl x \<Rightarrow> Some (Inl x)
      | Inr None \<Rightarrow> Some (Inr s)
      | Inr (Some i) \<Rightarrow> free_port u (s + 1) d)"

declare free_port.simps [code]

text \<open>Where \<^verbatim>\<open>qsort\<close> puts the new connection: after the entries that are not greater.\<close>

fun insert_at :: "utcp_connection \<Rightarrow> utcp_connection list \<Rightarrow> nat" where
  "insert_at c [] = 0"
| "insert_at c (x # xs) = (if compare c x < 0 then 0 else Suc (insert_at c xs))"

text \<open>The connection \<^verbatim>\<open>allocate_connection\<close> makes: zeroed by \<^verbatim>\<open>calloc\<close>, then filled
  in.\<close>

definition new_connection :: "utcp \<Rightarrow> env \<Rightarrow> u16 \<Rightarrow> u16 \<Rightarrow> utcp_connection" where
  "new_connection u e s d =
     (let iss = (word_of_int (rand_iss e) :: u32);
          n = unat (default_sndbufsize e)
      in \<lparr>priv = 0, reapable = False, nodelay = False, keepalive = False,
          src = s, dst = d, state = CLOSED,
          snd_una = iss, snd_nxt = iss + 1, snd_wnd = 0, snd_iss = iss, snd_last = iss + 1,
          snd_cwnd = ucast (mtu u),
          rcv_nxt = 0, rcv_wnd = ucast (mtu u), rcv_irs = 0, dupack = 0, recv = 0, poll = 0,
          conn_timeout = timerclear, rtrx_timeout = timerclear,
          sndbuf = realloc_buf n [] (heap e),
          sndbufsize = default_sndbufsize e, maxsndbufsize = default_maxsndbufsize e\<rparr>)"

text \<open>\<^verbatim>\<open>allocate_connection\<close>: an error (the null pointer, with \<^verbatim>\<open>errno\<close>), or the host
  with the new connection and its position. A failed allocation leaves \<^verbatim>\<open>ENOMEM\<close>.\<close>

definition allocate_connection ::
  "utcp \<Rightarrow> env \<Rightarrow> u16 \<Rightarrow> u16 \<Rightarrow> (crash + errno + utcp \<times> nat) option" where
  "allocate_connection u e s d =
     (let create = (\<lambda>s.
            if \<not> alloc_ok e then Some (Inr (Inl ENOMEM))
            else
             (let c = new_connection u e s d;
                  i = insert_at c (connections u)
              in Some (Inr (Inr (u\<lparr>connections :=
                                     take i (connections u) @ [c] @ drop i (connections u)\<rparr>,
                                 i)))))
      in if s \<noteq> 0 then
           (case find_connection u s d of
              Inl x \<Rightarrow> Some (Inl x)
            | Inr (Some i) \<Rightarrow> Some (Inr (Inl EADDRINUSE))
            | Inr None \<Rightarrow> create s)
         else if length (connections u) \<ge> 32767 then Some (Inr (Inl ENOMEM))
         else
          (case free_port u (word_of_int (rand_port e) OR 0x8000) d of
             None \<Rightarrow> None
           | Some (Inl x) \<Rightarrow> Some (Inl x)
           | Some (Inr s) \<Rightarrow> create s))"

text \<open>What a call on the host gives back: the return value, the value assigned to
  \<^verbatim>\<open>errno\<close>, the host afterwards (\<open>None\<close> for a null pointer) and the calls to the
  outside.\<close>

record host_result =
  hret :: int
  herr :: "errno option"
  host :: "utcp option"
  hout :: "event list"

text \<open>The header at the start of a datagram, copied by \<^verbatim>\<open>memcpy\<close> into a
  \<^verbatim>\<open>struct hdr\<close>: every field in the host's byte order.\<close>

definition bytes_word :: "bool \<Rightarrow> byte list \<Rightarrow> 'a::len word" where
  "bytes_word be bs =
     foldr (\<lambda>b w. ucast b OR push_bit 8 w) (if be then rev bs else bs) 0"

definition parse_hdr :: "bool \<Rightarrow> byte list \<Rightarrow> hdr" where
  "parse_hdr be bs =
     \<lparr>hdr_src = bytes_word be (take 2 bs),
      hdr_dst = bytes_word be (take 2 (drop 2 bs)),
      hdr_seq = bytes_word be (take 4 (drop 4 bs)),
      hdr_ack = bytes_word be (take 4 (drop 8 bs)),
      hdr_wnd = bytes_word be (take 4 (drop 12 bs)),
      hdr_ctl = bytes_word be (take 2 (drop 16 bs)),
      hdr_aux = bytes_word be (take 2 (drop 18 bs))\<rparr>"

text \<open>\<^verbatim>\<open>utcp_recv\<close> for a segment that matches no connection (``Is it for a new
  connection?'').\<close>

definition recv_unmatched :: "utcp \<Rightarrow> env \<Rightarrow> hdr \<Rightarrow> (crash + host_result) option" where
  "recv_unmatched u e h =
     (if hdr_ctl h AND RST \<noteq> 0
      then Some (Inr \<lparr>hret = 0, herr = None, host = Some u, hout = []\<rparr>)
      else if hdr_ctl h AND SYN \<noteq> 0 \<and> hdr_ctl h AND ACK = 0 \<and> accept u \<noteq> 0 then
        (let asked = (if pre_accept u \<noteq> 0 then [Pre_accept_cb (hdr_dst h)] else [])
         in if pre_accept u \<noteq> 0 \<and> \<not> on_pre_accept e
            then Some (Inr \<lparr>hret = 0, herr = None, host = Some u, hout = asked @ [reset h 1]\<rparr>)
            else
             (case allocate_connection u e (hdr_dst h) (hdr_src h) of
                None \<Rightarrow> None
              | Some (Inl x) \<Rightarrow> Some (Inl x)
              | Some (Inr (Inl er)) \<Rightarrow>
                  Some (Inr \<lparr>hret = 0, herr = Some er, host = Some u,
                             hout = asked @ [reset h 1]\<rparr>)
              | Some (Inr (Inr (u, i))) \<Rightarrow>
                 (let c = connections u ! i;
                      c = set_state
                            (c\<lparr>snd_wnd := hdr_wnd h, rcv_irs := hdr_seq h,
                               rcv_nxt := hdr_seq h + 1\<rparr>)
                            SYN_RECEIVED;
                      reply = h\<lparr>hdr_dst := dst c, hdr_src := src c, hdr_ack := rcv_irs c + 1,
                                hdr_seq := snd_iss c, hdr_ctl := SYN OR ACK\<rparr>
                  in Some (Inr \<lparr>hret = 0, herr = None,
                                 host = Some (u\<lparr>connections := (connections u)[i := c]\<rparr>),
                                 hout = asked @ [Send reply []]\<rparr>))))
      else Some (Inr \<lparr>hret = 0, herr = None, host = Some u, hout = [reset h 1]\<rparr>))"

text \<open>\<^verbatim>\<open>utcp_recv(utcp, data, len)\<close>.\<close>

definition utcp_recv :: "env \<Rightarrow> utcp option \<Rightarrow> cbuf \<Rightarrow> (crash + host_result) option" where
  "utcp_recv e up data =
     (case up of
        None \<Rightarrow> Some (Inr \<lparr>hret = - 1, herr = Some EFAULT, host = None, hout = []\<rparr>)
      | Some u \<Rightarrow>
         if buf_len data = 0
         then Some (Inr \<lparr>hret = 0, herr = None, host = Some u, hout = []\<rparr>)
         else case data of
           Null n \<Rightarrow> Some (Inr \<lparr>hret = - 1, herr = Some EFAULT, host = Some u, hout = []\<rparr>)
         | Buf bs \<Rightarrow>
            if length bs < sizeof_hdr
            then Some (Inr \<lparr>hret = - 1, herr = Some EBADMSG, host = Some u, hout = []\<rparr>)
            else
             (let h = parse_hdr (big_endian e) (take sizeof_hdr bs);
                  payload = drop sizeof_hdr bs
              in if hdr_ctl h AND NOT (SYN OR ACK OR RST OR FIN) \<noteq> 0
                 then Some (Inr \<lparr>hret = - 1, herr = Some EBADMSG, host = Some u, hout = []\<rparr>)
                 else case find_connection u (hdr_dst h) (hdr_src h) of
                   Inl x \<Rightarrow> Some (Inl x)
                 | Inr None \<Rightarrow> recv_unmatched u e h
                 | Inr (Some i) \<Rightarrow>
                    (case utcp_recv_conn u e (connections u ! i) h payload of
                       None \<Rightarrow> None
                     | Some (Inl x) \<Rightarrow> Some (Inl x)
                     | Some (Inr r) \<Rightarrow>
                         Some (Inr \<lparr>hret = ret r, herr = err r,
                                    host = Some (u\<lparr>connections :=
                                      (case conn r of
                                         None \<Rightarrow> free_connection (connections u) i
                                       | Some c \<Rightarrow> (connections u)[i := c])\<rparr>),
                                    hout = out r\<rparr>))))"

section \<open>Opening, closing and aborting\<close>

text \<open>What \<^verbatim>\<open>utcp_connect\<close> gives back: the host afterwards, the position of the new
  connection in it (\<open>None\<close> for the null pointer), \<^verbatim>\<open>errno\<close> and the calls to the
  outside.\<close>

record connect_result =
  cerr :: "errno option"
  chost :: utcp
  cconn :: "nat option"
  cout :: "event list"

definition utcp_connect ::
  "utcp \<Rightarrow> env \<Rightarrow> u16 \<Rightarrow> nat \<Rightarrow> nat \<Rightarrow> (crash + connect_result) option" where
  "utcp_connect u e d r p =
     (case allocate_connection u e 0 d of
        None \<Rightarrow> None
      | Some (Inl x) \<Rightarrow> Some (Inl x)
      | Some (Inr (Inl er)) \<Rightarrow>
          Some (Inr \<lparr>cerr = Some er, chost = u, cconn = None, cout = []\<rparr>)
      | Some (Inr (Inr (u, i))) \<Rightarrow>
         (let c = (connections u ! i)\<lparr>recv := r, priv := p\<rparr>;
              syn = \<lparr>hdr_src = src c, hdr_dst = dst c, hdr_seq = snd_iss c, hdr_ack = 0,
                     hdr_wnd = rcv_wnd c, hdr_ctl = SYN, hdr_aux = 0\<rparr>;
              c = set_state c SYN_SENT;
              c = c\<lparr>conn_timeout := (now e)\<lparr>tv_sec := tv_sec (now e) + timeout u\<rparr>\<rparr>
          in Some (Inr \<lparr>cerr = None, chost = u\<lparr>connections := (connections u)[i := c]\<rparr>,
                         cconn = Some i, cout = [Send syn []]\<rparr>)))"

text \<open>\<^verbatim>\<open>utcp_close\<close>: \<^verbatim>\<open>utcp_shutdown\<close>, then the connection is reapable.\<close>

definition utcp_close :: "utcp \<Rightarrow> utcp_connection option \<Rightarrow> (crash + conn_result) option" where
  "utcp_close u cp =
     (case utcp_shutdown u cp 2 of
        None \<Rightarrow> None
      | Some (Inl x) \<Rightarrow> Some (Inl x)
      | Some (Inr r) \<Rightarrow>
          if ret r \<noteq> 0 then Some (Inr (r\<lparr>ret := - 1\<rparr>))
          else Some (Inr (r\<lparr>conn := map_option (\<lambda>c. c\<lparr>reapable := True\<rparr>) (conn r)\<rparr>)))"

text \<open>\<^verbatim>\<open>utcp_abort\<close>. The RST it sends leaves \<^verbatim>\<open>aux\<close> as the stack had it
  (\<open>junk\<close>).\<close>

definition utcp_abort :: "u16 \<Rightarrow> utcp_connection option \<Rightarrow> conn_result" where
  "utcp_abort junk cp =
     (case cp of
        None \<Rightarrow> \<lparr>ret = - 1, err = Some EFAULT, conn = None, out = []\<rparr>
      | Some c \<Rightarrow>
         if reapable c then \<lparr>ret = - 1, err = Some EBADF, conn = Some c, out = []\<rparr>
         else
          (let c = c\<lparr>reapable := True\<rparr>;
               rst = \<lparr>hdr_src = src c, hdr_dst = dst c, hdr_seq = snd_nxt c, hdr_ack = 0,
                     hdr_wnd = 0, hdr_ctl = RST, hdr_aux = junk\<rparr>;
               quiet = (\<lambda>c. \<lparr>ret = 0, err = None, conn = Some c, out = []\<rparr>);
               loud = (\<lambda>c. \<lparr>ret = 0, err = None, conn = Some c, out = [Send rst []]\<rparr>)
           in case state c of
                CLOSED \<Rightarrow> quiet c
              | LISTEN \<Rightarrow> quiet (set_state c CLOSED)
              | SYN_SENT \<Rightarrow> quiet (set_state c CLOSED)
              | CLOSING \<Rightarrow> quiet (set_state c CLOSED)
              | LAST_ACK \<Rightarrow> quiet (set_state c CLOSED)
              | TIME_WAIT \<Rightarrow> quiet (set_state c CLOSED)
              | SYN_RECEIVED \<Rightarrow> loud (set_state c CLOSED)
              | ESTABLISHED \<Rightarrow> loud (set_state c CLOSED)
              | FIN_WAIT_1 \<Rightarrow> loud (set_state c CLOSED)
              | FIN_WAIT_2 \<Rightarrow> loud (set_state c CLOSED)
              | CLOSE_WAIT \<Rightarrow> loud (set_state c CLOSED)))"

section \<open>Timers\<close>

text \<open>\<^verbatim>\<open>retransmit\<close>: the segments it sends. The packet buffer comes from \<^verbatim>\<open>malloc\<close>;
  the header fields the code does not assign are what the buffer held.\<close>

definition retransmit :: "utcp \<Rightarrow> env \<Rightarrow> utcp_connection \<Rightarrow> crash + event list" where
  "retransmit u e c =
     (if state c = CLOSED \<or> snd_nxt c = snd_una c then Inr []
      else
       (let pkt = (heap_hdr e)\<lparr>hdr_src := src c, hdr_dst := dst c\<rparr>;
            resend =
              (let pkt = pkt\<lparr>hdr_seq := snd_una c, hdr_ack := rcv_nxt c, hdr_ctl := ACK\<rparr>;
                   len = (word_of_int (seqdiff (snd_nxt c) (snd_una c)) :: u32);
                   len = (if state c = FIN_WAIT_1 then len - 1 else len);
                   pkt = (if len > ucast (mtu u) then pkt
                          else if state c = FIN_WAIT_1 then pkt\<lparr>hdr_ctl := hdr_ctl pkt OR FIN\<rparr>
                          else pkt);
                   len = (if len > ucast (mtu u) then ucast (mtu u) else len)
               in case buf_read (sndbuf c) 0 (unat len) of
                    None \<Rightarrow> Inl Undefined
                  | Some bytes \<Rightarrow> Inr [Send pkt bytes])
        in case state c of
             LISTEN \<Rightarrow> Inr []
           | SYN_SENT \<Rightarrow>
               Inr [Send (pkt\<lparr>hdr_seq := snd_iss c, hdr_ack := 0, hdr_wnd := rcv_wnd c,
                               hdr_ctl := SYN\<rparr>) []]
           | SYN_RECEIVED \<Rightarrow>
               Inr [Send (pkt\<lparr>hdr_seq := snd_nxt c, hdr_ack := rcv_nxt c,
                               hdr_ctl := SYN OR ACK\<rparr>) []]
           | ESTABLISHED \<Rightarrow> resend
           | FIN_WAIT_1 \<Rightarrow> resend
           | _ \<Rightarrow> Inl Aborted))"

text \<open>What one pass of the loop of \<^verbatim>\<open>utcp_timeout\<close> does with a connection: the
  connection afterwards (\<open>None\<close>: freed), the calls to the outside, the \<^verbatim>\<open>next\<close>
  deadline and \<^verbatim>\<open>errno\<close>.\<close>

record sweep_result =
  swept :: "utcp_connection option"
  calls :: "event list"
  deadline :: timeval
  serr :: "errno option"

definition timeout_conn ::
  "utcp \<Rightarrow> env \<Rightarrow> utcp_connection \<Rightarrow> timeval \<Rightarrow> crash + sweep_result" where
  "timeout_conn u e c nxt =
     (if state c = CLOSED then
        Inr \<lparr>swept = (if reapable c then None else Some c), calls = [], deadline = nxt,
             serr = None\<rparr>
      else if timerisset (conn_timeout c) \<and> timer_less (conn_timeout c) (now e) then
        Inr \<lparr>swept = Some (c\<lparr>state := CLOSED\<rparr>),
             calls = (if recv c \<noteq> 0 then [Recv_cb (src c) (dst c) None] else []),
             deadline = nxt, serr = Some ETIMEDOUT\<rparr>
      else
       (case (if timerisset (rtrx_timeout c) \<and> timer_less (rtrx_timeout c) (now e)
              then retransmit u e c else Inr []) of
          Inl x \<Rightarrow> Inl x
        | Inr resent \<Rightarrow>
           (let polled =
                  (if poll c \<noteq> 0 \<and> sndbufsize c < maxsndbufsize c div 2
                      \<and> (state c = ESTABLISHED \<or> state c = CLOSE_WAIT)
                   then [Poll_cb (src c) (dst c) (unat (maxsndbufsize c - sndbufsize c))]
                   else []);
                nxt = (if timerisset (conn_timeout c) \<and> timer_less (conn_timeout c) nxt
                       then conn_timeout c else nxt);
                c = (if snd_nxt c \<noteq> snd_una c
                     then c\<lparr>rtrx_timeout := (now e)\<lparr>tv_sec := tv_sec (now e) + 1\<rparr>\<rparr>
                     else c\<lparr>rtrx_timeout := timerclear\<rparr>);
                nxt = (if timerisset (rtrx_timeout c) \<and> timer_less (rtrx_timeout c) nxt
                       then rtrx_timeout c else nxt)
            in Inr \<lparr>swept = Some c, calls = resent @ polled, deadline = nxt, serr = None\<rparr>)))"

text \<open>The loop of \<^verbatim>\<open>utcp_timeout\<close> over the connections.\<close>

fun timeout_loop ::
  "utcp \<Rightarrow> env \<Rightarrow> utcp_connection list \<Rightarrow> timeval \<Rightarrow> errno option
     \<Rightarrow> crash + utcp_connection list \<times> event list \<times> timeval \<times> errno option" where
  "timeout_loop u e [] nxt er = Inr ([], [], nxt, er)"
| "timeout_loop u e (c # cs) nxt er =
     (case timeout_conn u e c nxt of
        Inl x \<Rightarrow> Inl x
      | Inr r \<Rightarrow>
         (case timeout_loop u e cs (deadline r)
                 (case serr r of None \<Rightarrow> er | Some x \<Rightarrow> Some x) of
            Inl x \<Rightarrow> Inl x
          | Inr (cs, evs, nxt, er) \<Rightarrow>
              Inr ((case swept r of None \<Rightarrow> cs | Some c \<Rightarrow> c # cs), calls r @ evs, nxt, er)))"

text \<open>Division of \<^verbatim>\<open>int\<close>s in C rounds towards zero.\<close>

definition c_div :: "int \<Rightarrow> int \<Rightarrow> int" where
  "c_div a b = sgn a * sgn b * (\<bar>a\<bar> div \<bar>b\<bar>)"

text \<open>\<^verbatim>\<open>utcp_timeout\<close>: the time to the next deadline in milliseconds.\<close>

definition utcp_timeout :: "utcp \<Rightarrow> env \<Rightarrow> crash + host_result" where
  "utcp_timeout u e =
     (case timeout_loop u e (connections u)
             \<lparr>tv_sec = tv_sec (now e) + 3600, tv_usec = tv_usec (now e)\<rparr> None of
        Inl x \<Rightarrow> Inl x
      | Inr (cs, evs, nxt, er) \<Rightarrow>
         (let diff = \<lparr>tv_sec = tv_sec nxt - tv_sec (now e),
                      tv_usec = tv_usec nxt - tv_usec (now e)\<rparr>;
              diff = (if tv_usec diff < 0
                      then \<lparr>tv_sec = tv_sec diff - 1, tv_usec = tv_usec diff + 1000000\<rparr>
                      else diff)
          in Inr \<lparr>hret = (if tv_sec diff < 0 then 0
                           else tv_sec diff * 1000 + c_div (tv_usec diff) 1000),
                  herr = er, host = Some (u\<lparr>connections := cs\<rparr>), hout = evs\<rparr>))"

section \<open>Creating a host, and the setters\<close>

text \<open>\<^verbatim>\<open>utcp_init\<close>; the arguments are the addresses of the three callbacks, and
  \<^verbatim>\<open>calloc\<close> is taken to succeed. The host's \<^verbatim>\<open>priv\<close> pointer takes no part in what the
  code does and is left out.\<close>

definition utcp_init :: "nat \<Rightarrow> nat \<Rightarrow> nat \<Rightarrow> errno + utcp" where
  "utcp_init a p s =
     (if s = 0 then Inl EFAULT
      else Inr \<lparr>accept = a, pre_accept = p, mtu = 1000, timeout = 60, connections = []\<rparr>)"

definition utcp_set_mtu :: "utcp \<Rightarrow> u16 \<Rightarrow> utcp" where
  "utcp_set_mtu u m = u\<lparr>mtu := m\<rparr>"

definition utcp_set_user_timeout :: "utcp \<Rightarrow> int \<Rightarrow> utcp" where
  "utcp_set_user_timeout u t = u\<lparr>timeout := t\<rparr>"

definition utcp_set_sndbuf :: "utcp_connection \<Rightarrow> nat \<Rightarrow> utcp_connection" where
  "utcp_set_sndbuf c n =
     (let c = c\<lparr>maxsndbufsize := of_nat n\<rparr>
      in if unat (maxsndbufsize c) \<noteq> n then c\<lparr>maxsndbufsize := - 1\<rparr> else c)"

definition utcp_set_nodelay :: "utcp_connection \<Rightarrow> bool \<Rightarrow> utcp_connection" where
  "utcp_set_nodelay c b = c\<lparr>nodelay := b\<rparr>"

definition utcp_set_keepalive :: "utcp_connection \<Rightarrow> bool \<Rightarrow> utcp_connection" where
  "utcp_set_keepalive c b = c\<lparr>keepalive := b\<rparr>"

definition utcp_set_recv_cb :: "utcp_connection \<Rightarrow> nat \<Rightarrow> utcp_connection" where
  "utcp_set_recv_cb c r = c\<lparr>recv := r\<rparr>"

definition utcp_set_poll_cb :: "utcp_connection \<Rightarrow> nat \<Rightarrow> utcp_connection" where
  "utcp_set_poll_cb c p = c\<lparr>poll := p\<rparr>"

section \<open>Predicates of the claims\<close>



text \<open>How far processing a segment moved the connection: \<^verbatim>\<open>snd.una\<close> not backwards, and
  \<^verbatim>\<open>rcv.nxt\<close> forward by at most \<open>n\<close>, either from where it was or, for a connection in
  SYN\_SENT, from the sequence number after the peer's SYN.\<close>

definition moved :: "utcp_connection \<Rightarrow> hdr \<Rightarrow> nat \<Rightarrow> utcp_connection \<Rightarrow> bool" where
  "moved c h n c' \<longleftrightarrow>
     0 \<le> seqdiff (snd_una c') (snd_una c)
     \<and> ((\<exists>k\<le>n. rcv_nxt c' = rcv_nxt c + of_nat k)
        \<or> (state c = SYN_SENT \<and> (\<exists>k\<le>n. rcv_nxt c' = hdr_seq h + 1 + of_nat k)))"

text \<open>The calls of a \<^verbatim>\<open>poll\<close> callback among the events.\<close>

fun is_poll :: "event \<Rightarrow> bool" where
  "is_poll (Poll_cb s d n) = True"
| "is_poll _ = False"

text \<open>The connections whose \<^verbatim>\<open>poll\<close> callback a sweep at the time of \<open>e\<close> calls: a
  callback is installed, the state is ESTABLISHED or CLOSE\_WAIT, the sweep does not close
  the connection for its expired \<^verbatim>\<open>conn_timeout\<close>, and the send buffer's capacity is below
  half of the maximum, in whole bytes.\<close>

definition poll_due :: "env \<Rightarrow> utcp_connection \<Rightarrow> bool" where
  "poll_due e c =
     (poll c \<noteq> 0 \<and> (state c = ESTABLISHED \<or> state c = CLOSE_WAIT)
      \<and> \<not> (timerisset (conn_timeout c) \<and> timer_less (conn_timeout c) (now e))
      \<and> sndbufsize c < maxsndbufsize c div 2)"

section \<open>The hosts the interface can produce\<close>

text \<open>A host is reachable when calls of the public interface produce it: \<^verbatim>\<open>utcp_init\<close>,
  then any calls that return, with any arguments, on the host or on a connection the host
  holds (the connection a call works on is the entry at position \<open>i\<close>).\<close>

inductive reachable :: "utcp \<Rightarrow> bool" where
  init: "utcp_init a p s = Inr u \<Longrightarrow> reachable u"
| connect:
    "reachable u \<Longrightarrow> utcp_connect u e d r p = Some (Inr res) \<Longrightarrow> reachable (chost res)"
| recv:
    "reachable u \<Longrightarrow> utcp_recv e (Some u) data = Some (Inr res) \<Longrightarrow> host res = Some u'
       \<Longrightarrow> reachable u'"
| timeout:
    "reachable u \<Longrightarrow> utcp_timeout u e = Inr res \<Longrightarrow> host res = Some u' \<Longrightarrow> reachable u'"
| send:
    "reachable u \<Longrightarrow> i < length (connections u)
       \<Longrightarrow> utcp_send u grow (connections u ! i) data = Some (Inr res) \<Longrightarrow> conn res = Some c
       \<Longrightarrow> reachable (u\<lparr>connections := (connections u)[i := c]\<rparr>)"
| shutdown:
    "reachable u \<Longrightarrow> i < length (connections u)
       \<Longrightarrow> utcp_shutdown u (Some (connections u ! i)) dir = Some (Inr res)
       \<Longrightarrow> conn res = Some c
       \<Longrightarrow> reachable (u\<lparr>connections := (connections u)[i := c]\<rparr>)"
| close:
    "reachable u \<Longrightarrow> i < length (connections u)
       \<Longrightarrow> utcp_close u (Some (connections u ! i)) = Some (Inr res) \<Longrightarrow> conn res = Some c
       \<Longrightarrow> reachable (u\<lparr>connections := (connections u)[i := c]\<rparr>)"
| abort:
    "reachable u \<Longrightarrow> i < length (connections u)
       \<Longrightarrow> conn (utcp_abort junk (Some (connections u ! i))) = Some c
       \<Longrightarrow> reachable (u\<lparr>connections := (connections u)[i := c]\<rparr>)"
| accept:
    "reachable u \<Longrightarrow> i < length (connections u)
       \<Longrightarrow> reachable (u\<lparr>connections :=
                         (connections u)[i := utcp_accept (connections u ! i) r p]\<rparr>)"
| set_mtu: "reachable u \<Longrightarrow> reachable (utcp_set_mtu u m)"
| set_user_timeout: "reachable u \<Longrightarrow> reachable (utcp_set_user_timeout u t)"
| set_sndbuf:
    "reachable u \<Longrightarrow> i < length (connections u)
       \<Longrightarrow> reachable (u\<lparr>connections :=
                         (connections u)[i := utcp_set_sndbuf (connections u ! i) n]\<rparr>)"
| set_nodelay:
    "reachable u \<Longrightarrow> i < length (connections u)
       \<Longrightarrow> reachable (u\<lparr>connections :=
                         (connections u)[i := utcp_set_nodelay (connections u ! i) b]\<rparr>)"
| set_keepalive:
    "reachable u \<Longrightarrow> i < length (connections u)
       \<Longrightarrow> reachable (u\<lparr>connections :=
                         (connections u)[i := utcp_set_keepalive (connections u ! i) b]\<rparr>)"
| set_recv_cb:
    "reachable u \<Longrightarrow> i < length (connections u)
       \<Longrightarrow> reachable (u\<lparr>connections :=
                         (connections u)[i := utcp_set_recv_cb (connections u ! i) r]\<rparr>)"
| set_poll_cb:
    "reachable u \<Longrightarrow> i < length (connections u)
       \<Longrightarrow> reachable (u\<lparr>connections :=
                         (connections u)[i := utcp_set_poll_cb (connections u ! i) p]\<rparr>)"

text \<open>An established connection has no \<^verbatim>\<open>conn_timeout\<close> pending.\<close>

definition timer_ok :: "utcp_connection \<Rightarrow> bool" where
  "timer_ok c = (state c \<noteq> ESTABLISHED \<or> conn_timeout c = timerclear)"

text \<open>An event is a segment with at most \<open>n\<close> bytes of payload.\<close>

fun payload_within :: "nat \<Rightarrow> event \<Rightarrow> bool" where
  "payload_within n (Send h p) = (length p \<le> n)"
| "payload_within n _ = False"

section \<open>Example states\<close>

text \<open>A host with an MTU of 3 bytes and an established connection on it with nothing in
  flight: initial send sequence number 9 (the SYN took it), 10 is next; the peer's initial
  sequence number is 99.\<close>

definition host_ex :: utcp where
  "host_ex = \<lparr>accept = 0, pre_accept = 0, mtu = 3, timeout = 60, connections = []\<rparr>"

definition conn_ex :: utcp_connection where
  "conn_ex =
     \<lparr>priv = 0, reapable = False, nodelay = False, keepalive = False,
      src = 32769, dst = 7, state = ESTABLISHED,
      snd_una = 10, snd_nxt = 10, snd_wnd = 3, snd_iss = 9, snd_last = 10, snd_cwnd = 3,
      rcv_nxt = 100, rcv_wnd = 3, rcv_irs = 99, dupack = 0, recv = 0, poll = 0,
      conn_timeout = timerclear, rtrx_timeout = timerclear,
      sndbuf = [0, 0, 0, 0, 0, 0, 0, 0, 0, 0, 0, 0], sndbufsize = 12, maxsndbufsize = 12\<rparr>"

text \<open>The same connection with its send buffer full: 12 bytes in flight in a buffer of
  12 bytes that cannot grow.\<close>

definition conn_full :: utcp_connection where
  "conn_full = conn_ex\<lparr>snd_nxt := 22, snd_last := 22, snd_cwnd := 12\<rparr>"

text \<open>The connection after the application sent 10 bytes (3 left at once, the congestion
  window), called \<^verbatim>\<open>utcp_shutdown\<close>, and the peer acknowledged the 3 bytes, as it enters
  the egress engine: 7 bytes and the FIN are pending, the congestion window is 6.\<close>

definition conn_fin :: utcp_connection where
  "conn_fin = conn_ex\<lparr>state := FIN_WAIT_1, snd_una := 13, snd_nxt := 13, snd_last := 21,
      snd_cwnd := 6, sndbuf := [4, 5, 6, 7, 8, 9, 10, 0, 9, 10, 0, 0]\<rparr>"

text \<open>An environment: the clock at 1000 s, a little-endian host.\<close>

definition env_ex :: env where
  "env_ex =
     \<lparr>now = \<lparr>tv_sec = 1000, tv_usec = 0\<rparr>, stale = 0, rxd = 0, on_accept = None,
      on_pre_accept = True, rand_port = 1, rand_iss = 9, alloc_ok = True, heap = [],
      heap_hdr = \<lparr>hdr_src = 0, hdr_dst = 0, hdr_seq = 0, hdr_ack = 0, hdr_wnd = 0,
                  hdr_ctl = 0, hdr_aux = 0\<rparr>,
      big_endian = False, default_sndbufsize = 12, default_maxsndbufsize = 12\<rparr>"

text \<open>A segment from the peer of \<open>conn_ex\<close>.\<close>

definition seg_ex :: "u32 \<Rightarrow> u32 \<Rightarrow> u16 \<Rightarrow> hdr" where
  "seg_ex s a f =
     \<lparr>hdr_src = 7, hdr_dst = 32769, hdr_seq = s, hdr_ack = a, hdr_wnd = 3, hdr_ctl = f,
      hdr_aux = 0\<rparr>"

text \<open>The connection \<open>conn_ex\<close> after the application sent 6 bytes (3 left at once) and the
  peer answered with a segment that acknowledges the 3 bytes and has the SYN flag: the
  acknowledgement is taken, the second SYN is answered with a RST, and 3 bytes that now fit
  the congestion window are still to be sent.\<close>

definition conn_pending :: utcp_connection where
  "conn_pending = conn_ex\<lparr>snd_una := 13, snd_nxt := 13, snd_last := 16, snd_cwnd := 6,
      sndbuf := [4, 5, 6, 4, 5, 6, 0, 0, 0, 0, 0, 0]\<rparr>"

text \<open>The connection that \<^verbatim>\<open>utcp_connect\<close> to port 7 makes on \<open>host_ex\<close>: in SYN\_SENT,
  nothing received yet.\<close>

definition conn_syn_sent :: utcp_connection where
  "conn_syn_sent = conn_ex\<lparr>state := SYN_SENT, snd_una := 9, snd_wnd := 0, rcv_nxt := 0,
      rcv_irs := 0, conn_timeout := \<lparr>tv_sec = 1060, tv_usec = 0\<rparr>\<rparr>"

text \<open>\<open>conn_ex\<close> later in its life: both sides have sent their FIN, ours (sequence number
  10) is not acknowledged yet.\<close>

definition conn_closing :: utcp_connection where
  "conn_closing = conn_ex\<lparr>state := CLOSING, snd_nxt := 11, snd_last := 11, rcv_nxt := 101,
      dupack := 1\<rparr>"

text \<open>A connection like \<open>conn_ex\<close>, to port 8, with a \<^verbatim>\<open>poll\<close> callback, a send buffer
  of 6 bytes and a maximum of 13 bytes (set by \<^verbatim>\<open>utcp_set_sndbuf\<close>); and one to port 7
  with a buffer of 5 bytes and a maximum of 12.\<close>

definition conn_odd :: utcp_connection where
  "conn_odd = conn_ex\<lparr>dst := 8, poll := 1, sndbuf := [0, 0, 0, 0, 0, 0], sndbufsize := 6,
      maxsndbufsize := 13\<rparr>"

definition conn_roomy :: utcp_connection where
  "conn_roomy = conn_ex\<lparr>poll := 1, sndbuf := [0, 0, 0, 0, 0], sndbufsize := 5\<rparr>"

section \<open>The egress engine changes the connection in \<open>snd.nxt\<close> only\<close>

lemma ack_body_frame:
  "ack_body m c pkt off left = Some (c', pkt', off', left', e) \<Longrightarrow> \<exists>n. c' = c\<lparr>snd_nxt := n\<rparr>"
  by (auto simp: ack_body_def Let_def split: option.splits)

lemma ack_loop_frame_aux:
  assumes "ack_loop m c pkt off left evs = Some y"
  shows "\<forall>c' evs'. y = Inr (c', evs') \<longrightarrow> (\<exists>n. c' = c\<lparr>snd_nxt := n\<rparr>)"
  using assms
proof (induct rule: ack_loop.raw_induct [rotated 1, consumes 1])
  case (1 f m c pkt off left evs y)
  show ?case
  proof (cases "ack_body m c pkt off left")
    case None
    with 1(2) show ?thesis by auto
  next
    case (Some r)
    then obtain c1 pkt1 off1 left1 e
      where r: "ack_body m c pkt off left = Some (c1, pkt1, off1, left1, e)"
      by (cases r) auto
    from ack_body_frame [OF r] obtain n1 where c1: "c1 = c\<lparr>snd_nxt := n1\<rparr>" ..
    show ?thesis
    proof (cases "left1 = 0")
      case True
      with r 1(2) c1 show ?thesis by auto
    next
      case False
      with r 1(2) have "f m c1 pkt1 off1 left1 (evs @ [e]) = Some y" by simp
      from 1(1) [OF this]
      have "\<forall>c' evs'. y = Inr (c', evs') \<longrightarrow> (\<exists>n. c' = c1\<lparr>snd_nxt := n\<rparr>)" .
      with c1 show ?thesis by auto
    qed
  qed
qed

lemma ack_loop_frame:
  "ack_loop m c pkt off left evs = Some (Inr (c', evs')) \<Longrightarrow> \<exists>n. c' = c\<lparr>snd_nxt := n\<rparr>"
  using ack_loop_frame_aux by blast

lemma ack_frame:
  "ack u c b = Some (Inr (c', evs)) \<Longrightarrow> \<exists>n. c' = c\<lparr>snd_nxt := n\<rparr>"
  unfolding ack_def Let_def
  by (auto split: if_splits dest: ack_loop_frame intro: exI [of _ "snd_nxt c"])

section \<open>The egress engine returns, and what it sends\<close>

text \<open>With an MTU that is not 0 the loop ends: \<^verbatim>\<open>ack\<close> returns or stops the process, it
  does not run forever.\<close>

lemma sint_diff_small:
  assumes "0 \<le> k" and "k \<le> l" and "l < 2 ^ 31"
  shows "sint ((word_of_int l :: u32) - word_of_int k) = l - k"
proof -
  have e: "(word_of_int l :: u32) - word_of_int k = word_of_int (l - k)" by simp
  have "sint (word_of_int (l - k) :: u32) = signed_take_bit 31 (l - k)"
    by (simp only: signed_of_int) simp
  also have "\<dots> = l - k"
    using assms by (intro signed_take_bit_int_eq_self) auto
  finally show ?thesis unfolding e .
qed

lemma ack_body_left:
  assumes "0 \<le> left" and "left < 2 ^ 31"
    and "ack_body m c pkt off left = Some (c', pkt', off', left', ev)"
  shows "left' = left - min left (uint m)"
proof -
  let ?k = "if uint m < left then uint m else left"
  have k: "0 \<le> ?k" "?k \<le> left" using assms(1) by auto
  from assms(3) have "left' = sint ((word_of_int left :: u32) - word_of_int ?k)"
    by (auto simp: ack_body_def Let_def split: option.splits)
  also have "\<dots> = left - ?k"
    using k assms(2) by (rule sint_diff_small)
  finally show ?thesis by (simp add: min_def)
qed

lemma ack_loop_returns:
  "0 \<le> left \<Longrightarrow> left < 2 ^ 31 \<Longrightarrow> m \<noteq> 0 \<Longrightarrow> \<exists>y. ack_loop m c pkt off left evs = Some y"
proof (induction "nat left" arbitrary: left c pkt off evs rule: less_induct)
  case less
  show ?case
  proof (cases "ack_body m c pkt off left")
    case None
    then show ?thesis by (subst ack_loop.simps) simp
  next
    case (Some r)
    then obtain c1 pkt1 off1 left1 ev
      where r: "ack_body m c pkt off left = Some (c1, pkt1, off1, left1, ev)"
      by (cases r) auto
    from ack_body_left [OF less.prems(1,2) r]
    have l1: "left1 = left - min left (uint m)" .
    show ?thesis
    proof (cases "left1 = 0")
      case True
      with r show ?thesis by (subst ack_loop.simps) simp
    next
      case False
      have "0 < uint m" using less.prems(3) by (simp add: word_greater_zero_iff uint_0_iff less_le)
      with l1 False less.prems(1) have "0 \<le> left1" "left1 < left" by (auto simp: min_def split: if_splits)
      with less.hyps [of left1 c1 pkt1 off1 "evs @ [ev]"] less.prems
      obtain y where "ack_loop m c1 pkt1 off1 left1 (evs @ [ev]) = Some y" by auto
      with r False show ?thesis by (subst ack_loop.simps) simp
    qed
  qed
qed

lemma ack_returns: "mtu u \<noteq> 0 \<Longrightarrow> \<exists>y. ack u c b = Some y"
proof -
  assume m: "mtu u \<noteq> 0"
  have r: "seqdiff x y < 2 ^ 31" for x y
    using sint_lt [of "x - y"] by (simp add: seqdiff_def)
  have s: "sint w < 2 ^ 31" for w :: u32 using sint_lt [of w] by simp
  show ?thesis
    unfolding ack_def Let_def
    using m r [of "snd_last c" "snd_nxt c"]
    by (auto intro!: ack_loop_returns simp: s)
qed

lemma ack_quiet:
  assumes "0 \<le> seqdiff (snd_last c) (snd_nxt c)"
    and "seqdiff (snd_last c) (snd_nxt c) = 0
         \<or> sint (snd_cwnd c - word_of_int (seqdiff (snd_nxt c) (snd_una c))) \<le> 0"
  shows "ack u c False = Some (Inr (c, []))"
  using assms by (auto simp: ack_def Let_def)

text \<open>No segment carries more payload than the MTU.\<close>

lemma buf_read_length: "buf_read buf off n = Some bs \<Longrightarrow> length bs = n"
  by (auto simp: buf_read_def split: if_splits)

lemma uint_u16_bound: "uint (m :: u16) < 65536"
  using uint_lt2p [of m] by simp

lemma unat_word_of_int_small:
  assumes "0 \<le> k" and "k < 4294967296"
  shows "unat (word_of_int k :: u32) = nat k"
proof -
  have "uint (word_of_int k :: u32) = take_bit 32 k" by (simp add: uint_word_of_int_eq)
  also have "\<dots> = k" using assms by (intro take_bit_int_eq_self) auto
  finally show ?thesis by (simp add: unat_eq_nat_uint)
qed

lemma seglen_bound:
  assumes "0 \<le> left"
  shows "unat (word_of_int (if uint m < left then uint m else left) :: u32) \<le> unat (m :: u16)"
proof -
  let ?k = "if uint m < left then uint m else left"
  have k: "0 \<le> ?k" "?k \<le> uint m" using assms by auto
  with uint_u16_bound [of m] have "?k < 4294967296" by linarith
  from unat_word_of_int_small [OF k(1) this] k(2) show ?thesis
    by (simp only: unat_eq_nat_uint [of m])
qed

lemma ack_body_payload:
  assumes "0 \<le> left"
    and "ack_body m c pkt off left = Some (c', pkt', off', left', ev)"
  shows "payload_within (unat m) ev"
proof -
  note b = seglen_bound [OF assms(1), of m]
  from assms(2) obtain bytes where
    rd: "buf_read (sndbuf c) off
           (unat (word_of_int (if uint m < left then uint m else left) :: u32)) = Some bytes"
    and "\<exists>h n. ev = Send h (take n bytes)"
    by (auto simp: ack_body_def Let_def split: option.splits)
  with buf_read_length [OF rd] b show ?thesis by auto
qed

lemma ack_loop_payload_aux:
  assumes "ack_loop m c pkt off left evs = Some y"
  shows "\<forall>c' evs'. y = Inr (c', evs') \<longrightarrow> 0 \<le> left \<longrightarrow> left < 2 ^ 31 \<longrightarrow>
           (\<forall>ev\<in>set evs. payload_within (unat m) ev) \<longrightarrow>
           (\<forall>ev\<in>set evs'. payload_within (unat m) ev)"
  using assms
proof (induct rule: ack_loop.raw_induct [rotated 1, consumes 1])
  case (1 f m c pkt off left evs y)
  show ?case
  proof (cases "ack_body m c pkt off left")
    case None
    with 1(2) show ?thesis by auto
  next
    case (Some r)
    then obtain c1 pkt1 off1 left1 ev
      where r: "ack_body m c pkt off left = Some (c1, pkt1, off1, left1, ev)"
      by (cases r) auto
    show ?thesis
    proof (intro allI impI)
      fix c' evs'
      assume y: "y = Inr (c', evs')" and l: "0 \<le> left" "left < 2 ^ 31"
        and evs: "\<forall>ev\<in>set evs. payload_within (unat m) ev"
      note p = ack_body_payload [OF l(1) r]
      have "0 \<le> min left (uint m)" "min left (uint m) \<le> left" using l(1) by simp_all
      with ack_body_left [OF l r] l have l1: "0 \<le> left1" "left1 < 2 ^ 31"
        by linarith+
      show "\<forall>ev\<in>set evs'. payload_within (unat m) ev"
      proof (cases "left1 = 0")
        case True
        with r 1(2) y evs p show ?thesis by auto
      next
        case False
        with r 1(2) have "f m c1 pkt1 off1 left1 (evs @ [ev]) = Some y" by simp
        from 1(1) [OF this] y l1 evs p show ?thesis by auto
      qed
    qed
  qed
qed

lemma ack_payload:
  assumes "ack u c b = Some (Inr (c', evs))"
  shows "\<forall>ev\<in>set evs. payload_within (unat (mtu u)) ev"
proof -
  let ?pkt = "\<lparr>hdr_src = src c, hdr_dst = dst c, hdr_seq = 0, hdr_ack = rcv_nxt c,
               hdr_wnd = snd_wnd c, hdr_ctl = ACK, hdr_aux = 0\<rparr>"
  have s: "sint w < 2 ^ 31" for w :: u32 using sint_lt [of w] by simp
  have "evs = [] \<or> (\<exists>off left. 0 \<le> left \<and> left < 2 ^ 31
                      \<and> ack_loop (mtu u) c ?pkt off left [] = Some (Inr (c', evs)))"
    using assms s [of "snd_last c - snd_nxt c"] unfolding ack_def Let_def seqdiff_def
    by (auto split: if_splits simp: s)
  then show ?thesis
  proof
    assume "evs = []"
    then show ?thesis by simp
  next
    assume "\<exists>off left. 0 \<le> left \<and> left < 2 ^ 31
              \<and> ack_loop (mtu u) c ?pkt off left [] = Some (Inr (c', evs))"
    then obtain off left where "0 \<le> left" "left < 2 ^ 31"
      "ack_loop (mtu u) c ?pkt off left [] = Some (Inr (c', evs))"
      by blast
    with ack_loop_payload_aux [OF this(3)] show ?thesis by simp
  qed
qed














section \<open>The egress engine and the FIN\<close>

text \<open>C3, at an input where the code departs from it: in FIN\_WAIT\_1 with 7 bytes and the
  FIN pending and a congestion window of 6, \<^verbatim>\<open>ack\<close> sends 3 bytes and then a segment
  with the FIN flag whose payload is cut by one byte, although that segment ends two
  sequence numbers before \<^verbatim>\<open>snd.last\<close>: the byte at sequence number 18 is given the FIN's
  place and is not sent. The claim puts the FIN on the segment that covers the last pending sequence
  number.\<close>

theorem ack_fin_clamped:
  "ack host_ex conn_fin False =
     Some (Inr (conn_fin\<lparr>snd_nxt := 19\<rparr>,
       [Send \<lparr>hdr_src = 32769, hdr_dst = 7, hdr_seq = 13, hdr_ack = 100,
               hdr_wnd = 3, hdr_ctl = 2, hdr_aux = 0\<rparr> [4, 5, 6],
        Send \<lparr>hdr_src = 32769, hdr_dst = 7, hdr_seq = 16, hdr_ack = 100,
               hdr_wnd = 3, hdr_ctl = 6, hdr_aux = 0\<rparr> [7, 8]]))
   \<and> seqdiff (snd_last conn_fin) 19 = 2"
  by code_simp

text \<open>How the engine comes to be entered with \<open>conn_fin\<close>: the application sends the bytes
  1 to 10 and shuts down; the peer's acknowledgement of 3 bytes is processed, and at its end
  the two segments above go out, the second with the FIN in the place of the byte 9.\<close>

lemma conn_fin_reached:
  "utcp_send host_ex None conn_ex (Buf [1, 2, 3, 4, 5, 6, 7, 8, 9, 10]) =
     Some (Inr \<lparr>ret = 10, err = None,
                conn = Some (conn_ex\<lparr>snd_nxt := 13, snd_last := 20,
                                     sndbuf := [1, 2, 3, 4, 5, 6, 7, 8, 9, 10, 0, 0]\<rparr>),
                out = [Send \<lparr>hdr_src = 32769, hdr_dst = 7, hdr_seq = 10, hdr_ack = 100,
                             hdr_wnd = 3, hdr_ctl = 2, hdr_aux = 0\<rparr> [1, 2, 3]]\<rparr>)
   \<and> utcp_shutdown host_ex
        (Some (conn_ex\<lparr>snd_nxt := 13, snd_last := 20,
                       sndbuf := [1, 2, 3, 4, 5, 6, 7, 8, 9, 10, 0, 0]\<rparr>)) 2 =
     Some (Inr \<lparr>ret = 0, err = None,
                conn = Some (conn_ex\<lparr>state := FIN_WAIT_1, snd_nxt := 13, snd_last := 21,
                                     sndbuf := [1, 2, 3, 4, 5, 6, 7, 8, 9, 10, 0, 0]\<rparr>),
                out = []\<rparr>)
   \<and> utcp_recv_conn host_ex env_ex
        (conn_ex\<lparr>state := FIN_WAIT_1, snd_nxt := 13, snd_last := 21,
                  sndbuf := [1, 2, 3, 4, 5, 6, 7, 8, 9, 10, 0, 0]\<rparr>)
        (seg_ex 100 13 2) [] =
     Some (Inr \<lparr>ret = 0, err = None, conn = Some (conn_fin\<lparr>snd_nxt := 19\<rparr>),
                out = [Send \<lparr>hdr_src = 32769, hdr_dst = 7, hdr_seq = 13, hdr_ack = 100,
                             hdr_wnd = 3, hdr_ctl = 2, hdr_aux = 0\<rparr> [4, 5, 6],
                       Send \<lparr>hdr_src = 32769, hdr_dst = 7, hdr_seq = 16, hdr_ack = 100,
                             hdr_wnd = 3, hdr_ctl = 6, hdr_aux = 0\<rparr> [7, 8]]\<rparr>)"
  by code_simp

section \<open>Sending\<close>

text \<open>The errors of \<^verbatim>\<open>utcp_send\<close> that come from the state of the connection.\<close>

lemma utcp_send_errors:
  "reapable c \<Longrightarrow>
     utcp_send u grow c data = Some (Inr \<lparr>ret = - 1, err = Some EBADF, conn = Some c, out = []\<rparr>)"
  "\<not> reapable c \<Longrightarrow> state c \<in> {CLOSED, LISTEN, SYN_SENT, SYN_RECEIVED} \<Longrightarrow>
     utcp_send u grow c data =
       Some (Inr \<lparr>ret = - 1, err = Some ENOTCONN, conn = Some c, out = []\<rparr>)"
  "\<not> reapable c \<Longrightarrow> state c \<in> {FIN_WAIT_1, FIN_WAIT_2, CLOSING, LAST_ACK, TIME_WAIT} \<Longrightarrow>
     utcp_send u grow c data =
       Some (Inr \<lparr>ret = - 1, err = Some EPIPE, conn = Some c, out = []\<rparr>)"
  by (auto simp: utcp_send_def)

text \<open>C6, at an input where the code departs from it: on an established connection whose
  send buffer is full and cannot grow, \<^verbatim>\<open>utcp_send\<close> of one byte returns 0 and accepts
  nothing, and \<^verbatim>\<open>errno\<close> is not assigned (the claim: it is set to the would-block
  error).\<close>

theorem utcp_send_full_buffer_errno:
  "utcp_send host_ex grow conn_full (Buf [1]) =
     Some (Inr \<lparr>ret = 0, err = None, conn = Some conn_full, out = []\<rparr>)"
  by (simp add: utcp_send_def send_data_def conn_full_def conn_ex_def seqdiff_def Let_def)

text \<open>C10: on a connection that is not reapable and is in ESTABLISHED or CLOSE\_WAIT,
  \<^verbatim>\<open>utcp_send\<close> of zero bytes returns 0, assigns no error, leaves the connection as it
  was and sends nothing, with a null data pointer as with a buffer.\<close>

theorem utcp_send_zero_length:
  assumes "\<not> reapable c" and "state c = ESTABLISHED \<or> state c = CLOSE_WAIT"
  shows "utcp_send u grow c (Null 0) =
           Some (Inr \<lparr>ret = 0, err = None, conn = Some c, out = []\<rparr>)
       \<and> utcp_send u grow c (Buf []) =
           Some (Inr \<lparr>ret = 0, err = None, conn = Some c, out = []\<rparr>)"
  using assms by (auto simp: utcp_send_def send_data_def)

theorem utcp_send_zero_length_witness:
  "\<not> reapable conn_ex \<and> state conn_ex = ESTABLISHED
   \<and> utcp_send host_ex None conn_ex (Null 0) =
       Some (Inr \<lparr>ret = 0, err = None, conn = Some conn_ex, out = []\<rparr>)
   \<and> utcp_send host_ex None conn_ex (Buf []) =
       Some (Inr \<lparr>ret = 0, err = None, conn = Some conn_ex, out = []\<rparr>)"
  using utcp_send_zero_length [of conn_ex host_ex None] by (simp add: conn_ex_def)

section \<open>Shutdown\<close>

lemma shutdown_fin_state:
  "shutdown_fin u c = Some (Inr r) \<Longrightarrow>
     \<exists>c'. conn r = Some c' \<and> state c' = state c \<and> reapable c' = reapable c"
  by (auto simp: shutdown_fin_def split: option.splits sum.splits dest!: ack_frame)

lemma utcp_shutdown_closing:
  "\<not> reapable c \<Longrightarrow>
   state c \<in> {CLOSED, FIN_WAIT_1, FIN_WAIT_2, CLOSING, LAST_ACK, TIME_WAIT} \<Longrightarrow>
     utcp_shutdown u (Some c) d = Some (Inr \<lparr>ret = 0, err = None, conn = Some c, out = []\<rparr>)"
  by (auto simp: utcp_shutdown_def)

lemma utcp_shutdown_state:
  "\<not> reapable c \<Longrightarrow> utcp_shutdown u (Some c) d = Some (Inr r) \<Longrightarrow>
     \<exists>c'. conn r = Some c' \<and> \<not> reapable c'
        \<and> state c' \<in> {CLOSED, FIN_WAIT_1, FIN_WAIT_2, CLOSING, LAST_ACK, TIME_WAIT}"
  by (cases "state c") (auto simp: utcp_shutdown_def set_state_def dest!: shutdown_fin_state)

text \<open>C7: when \<^verbatim>\<open>utcp_shutdown\<close> on a connection that is not reapable returns, a second
  \<^verbatim>\<open>utcp_shutdown\<close> on the connection it left returns 0, sends nothing and changes
  nothing; and on a connection already in FIN\_WAIT\_1, FIN\_WAIT\_2, CLOSING, LAST\_ACK or
  TIME\_WAIT, \<^verbatim>\<open>utcp_shutdown\<close> returns 0 with the connection (so \<^verbatim>\<open>snd.last\<close>) as it
  was and without a call to the egress callback.\<close>

theorem utcp_shutdown_idempotent:
  assumes "\<not> reapable c"
  shows "(\<forall>r. utcp_shutdown u (Some c) d = Some (Inr r) \<longrightarrow>
            (\<exists>c'. conn r = Some c' \<and>
               utcp_shutdown u (Some c') d' =
                 Some (Inr \<lparr>ret = 0, err = None, conn = Some c', out = []\<rparr>)))
       \<and> (state c \<in> {FIN_WAIT_1, FIN_WAIT_2, CLOSING, LAST_ACK, TIME_WAIT} \<longrightarrow>
            utcp_shutdown u (Some c) d =
              Some (Inr \<lparr>ret = 0, err = None, conn = Some c, out = []\<rparr>))"
proof (intro conjI allI impI)
  fix r assume "utcp_shutdown u (Some c) d = Some (Inr r)"
  from utcp_shutdown_state [OF assms this] obtain c'
    where "conn r = Some c'" "\<not> reapable c'"
      "state c' \<in> {CLOSED, FIN_WAIT_1, FIN_WAIT_2, CLOSING, LAST_ACK, TIME_WAIT}"
    by blast
  then show "\<exists>c'. conn r = Some c' \<and>
               utcp_shutdown u (Some c') d' =
                 Some (Inr \<lparr>ret = 0, err = None, conn = Some c', out = []\<rparr>)"
    using utcp_shutdown_closing by blast
next
  assume "state c \<in> {FIN_WAIT_1, FIN_WAIT_2, CLOSING, LAST_ACK, TIME_WAIT}"
  with assms
  show "utcp_shutdown u (Some c) d = Some (Inr \<lparr>ret = 0, err = None, conn = Some c, out = []\<rparr>)"
    using utcp_shutdown_closing [of c u d] by auto
qed

lemma conn_ex_shutdown:
  "utcp_shutdown host_ex (Some conn_ex) 2 =
     Some (Inr \<lparr>ret = 0, err = None,
                conn = Some (conn_ex\<lparr>state := FIN_WAIT_1, snd_nxt := 11, snd_last := 11\<rparr>),
                out = [Send \<lparr>hdr_src = 32769, hdr_dst = 7, hdr_seq = 10, hdr_ack = 100,
                             hdr_wnd = 3, hdr_ctl = 6, hdr_aux = 0\<rparr> []]\<rparr>)"
  by code_simp

theorem utcp_shutdown_idempotent_witness:
  "\<not> reapable conn_ex
   \<and> utcp_shutdown host_ex (Some conn_ex) 2 =
     Some (Inr \<lparr>ret = 0, err = None,
                conn = Some (conn_ex\<lparr>state := FIN_WAIT_1, snd_nxt := 11, snd_last := 11\<rparr>),
                out = [Send \<lparr>hdr_src = 32769, hdr_dst = 7, hdr_seq = 10, hdr_ack = 100,
                             hdr_wnd = 3, hdr_ctl = 6, hdr_aux = 0\<rparr> []]\<rparr>)
   \<and> utcp_shutdown host_ex
       (Some (conn_ex\<lparr>state := FIN_WAIT_1, snd_nxt := 11, snd_last := 11\<rparr>)) 2 =
     Some (Inr \<lparr>ret = 0, err = None,
                conn = Some (conn_ex\<lparr>state := FIN_WAIT_1, snd_nxt := 11, snd_last := 11\<rparr>),
                out = []\<rparr>)"
  using utcp_shutdown_idempotent [of conn_ex host_ex 2 2] conn_ex_shutdown
  by (simp add: conn_ex_def)

section \<open>Unacceptable segments\<close>

text \<open>How \<open>conn_pending\<close> comes about.\<close>

lemma conn_pending_reached:
  "utcp_send host_ex None conn_ex (Buf [1, 2, 3, 4, 5, 6]) =
     Some (Inr \<lparr>ret = 6, err = None,
                conn = Some (conn_ex\<lparr>snd_nxt := 13, snd_last := 16,
                                     sndbuf := [1, 2, 3, 4, 5, 6, 0, 0, 0, 0, 0, 0]\<rparr>),
                out = [Send \<lparr>hdr_src = 32769, hdr_dst = 7, hdr_seq = 10, hdr_ack = 100,
                             hdr_wnd = 3, hdr_ctl = 2, hdr_aux = 0\<rparr> [1, 2, 3]]\<rparr>)
   \<and> utcp_recv_conn host_ex env_ex
        (conn_ex\<lparr>snd_nxt := 13, snd_last := 16, sndbuf := [1, 2, 3, 4, 5, 6, 0, 0, 0, 0, 0, 0]\<rparr>)
        (seg_ex 100 13 3) [] =
     Some (Inr \<lparr>ret = 0, err = None, conn = Some conn_pending,
                out = [Send \<lparr>hdr_src = 32769, hdr_dst = 7, hdr_seq = 13, hdr_ack = 13,
                             hdr_wnd = 0, hdr_ctl = 8, hdr_aux = 0\<rparr> []]\<rparr>)"
  by code_simp




text \<open>Where nothing can be sent, whether the empty ACK segment goes out depends on the
  value found in \<^verbatim>\<open>prevrcvnxt\<close>, whose initialisation \<^verbatim>\<open>goto ack\<close> has jumped over: with a
  value other than \<^verbatim>\<open>rcv.nxt\<close> it does, with \<^verbatim>\<open>rcv.nxt\<close> itself nothing is sent, where the
  comment at the jump says that an ACK is sent back.\<close>

lemma reply_depends_on_prevrcvnxt:
  "\<not> acceptable conn_ex (seg_ex 200 10 2) \<and> hdr_ctl (seg_ex 200 10 2) AND RST = 0
   \<and> utcp_recv_conn host_ex (env_ex\<lparr>stale := 0\<rparr>) conn_ex (seg_ex 200 10 2) [] =
       Some (Inr \<lparr>ret = 0, err = None, conn = Some conn_ex,
                  out = [Send \<lparr>hdr_src = 32769, hdr_dst = 7, hdr_seq = 10, hdr_ack = 100,
                               hdr_wnd = 3, hdr_ctl = 2, hdr_aux = 0\<rparr> []]\<rparr>)
   \<and> utcp_recv_conn host_ex (env_ex\<lparr>stale := 100\<rparr>) conn_ex (seg_ex 200 10 2) [] =
       Some (Inr \<lparr>ret = 0, err = None, conn = Some conn_ex, out = []\<rparr>)"
  by code_simp


section \<open>Malformed datagrams\<close>

text \<open>C5 as stated fails: the empty datagram is shorter than 16 bytes, and \<^verbatim>\<open>utcp_recv\<close>
  returns 0 for it without an error.\<close>

theorem utcp_recv_empty_datagram:
  "length ([] :: byte list) < 16
   \<and> utcp_recv env_ex (Some host_ex) (Buf []) =
       Some (Inr \<lparr>hret = 0, herr = None, host = Some host_ex, hout = []\<rparr>)"
  by (simp add: utcp_recv_def)

text \<open>C5, amended. The header is 20 bytes long. A datagram that is not empty and shorter
  than 20 bytes (so any of 1 to 15 bytes), and a datagram of at least 20 bytes whose
  \<^verbatim>\<open>ctl\<close> field has a bit outside SYN, ACK, FIN and RST, make \<^verbatim>\<open>utcp_recv\<close> return -1
  with the bad-message error; the host and its connections are as they were and nothing is
  sent.\<close>

theorem utcp_recv_bad_message:
  assumes "(0 < length bs \<and> length bs < 20)
         \<or> (20 \<le> length bs
            \<and> hdr_ctl (parse_hdr (big_endian e) (take 20 bs)) AND NOT (SYN OR ACK OR RST OR FIN)
                \<noteq> 0)"
  shows "sizeof_hdr = 20
       \<and> utcp_recv e (Some u) (Buf bs) =
           Some (Inr \<lparr>hret = - 1, herr = Some EBADMSG, host = Some u, hout = []\<rparr>)"
  using assms by (auto simp: utcp_recv_def sizeof_hdr_def Let_def)

theorem utcp_recv_bad_message_witness:
  "0 < length [1 :: byte, 2, 3] \<and> length [1 :: byte, 2, 3] < 20
   \<and> utcp_recv env_ex (Some host_ex) (Buf [1, 2, 3]) =
       Some (Inr \<lparr>hret = - 1, herr = Some EBADMSG, host = Some host_ex, hout = []\<rparr>)"
  using utcp_recv_bad_message [of "[1, 2, 3]" env_ex host_ex] by simp

text \<open>A datagram of 20 bytes with the flag bit 16.\<close>

lemma utcp_recv_unknown_flag:
  "utcp_recv env_ex (Some host_ex)
     (Buf [7, 0, 1, 128, 100, 0, 0, 0, 10, 0, 0, 0, 3, 0, 0, 0, 16, 0, 0, 0]) =
       Some (Inr \<lparr>hret = - 1, herr = Some EBADMSG, host = Some host_ex, hout = []\<rparr>)"
  by code_simp

section \<open>Processing a segment moves the connection forward\<close>

lemma advance_una_mono:
  assumes "advance_una u t c h (word_of_int (seqdiff (hdr_ack h) (snd_una c))) len = Inr c'"
  shows "rcv_nxt c' = rcv_nxt c \<and> 0 \<le> seqdiff (snd_una c') (snd_una c)
         \<and> (state c' = SYN_SENT \<longleftrightarrow> state c = SYN_SENT)"
  using assms
  by (auto simp: advance_una_def Let_def seqdiff_def set_state_def split: if_splits option.splits state.splits)

lemma update_timers_same [simp]:
  "rcv_nxt (update_timers c a) = rcv_nxt c" "snd_una (update_timers c a) = snd_una c"
  "state (update_timers c a) = state c"
  by (simp_all add: update_timers_def Let_def)

lemma process_syn_go:
  "process_syn c h a = Go c' evs \<Longrightarrow>
     snd_una c' = snd_una c
     \<and> (if state c = SYN_SENT \<and> hdr_ctl h AND SYN \<noteq> 0
         then rcv_nxt c' = hdr_seq h + 1 \<and> state c' = ESTABLISHED
         else rcv_nxt c' = rcv_nxt c \<and> state c' = state c)"
  by (auto simp: process_syn_def Let_def set_state_def split: if_splits state.splits)

lemma process_syn_reset:
  "process_syn c h a = Reset c' evs \<Longrightarrow> c' = c"
  by (auto simp: process_syn_def Let_def split: if_splits state.splits)

lemma process_accept_same:
  "process_accept u e c a = Go c' evs \<or> process_accept u e c a = Reset c' evs \<Longrightarrow>
     snd_una c' = snd_una c \<and> rcv_nxt c' = rcv_nxt c"
  by (auto simp: process_accept_def Let_def set_state_def utcp_accept_def
           split: if_splits option.splits prod.splits)

lemma process_accept_go:
  "process_accept u e c a = Go c' evs \<Longrightarrow> state c' = ESTABLISHED \<or> state c' = state c"
  by (auto simp: process_accept_def Let_def set_state_def utcp_accept_def
           split: if_splits option.splits prod.splits)

lemma process_data_go:
  "process_data e c data = Go c' evs \<Longrightarrow>
     snd_una c' = snd_una c \<and> state c' = state c
     \<and> rcv_nxt c' = rcv_nxt c + of_nat (length data)
     \<and> (data \<noteq> [] \<longrightarrow> state c = ESTABLISHED \<or> state c = FIN_WAIT_1 \<or> state c = FIN_WAIT_2)"
  by (auto simp: process_data_def Let_def split: if_splits state.splits)

lemma process_data_reset:
  "process_data e c data = Reset c' evs \<Longrightarrow> c' = c"
  by (auto simp: process_data_def Let_def split: if_splits state.splits)

lemma process_fin_go:
  "process_fin t c h = Go c' evs \<Longrightarrow>
     snd_una c' = snd_una c
     \<and> rcv_nxt c' = rcv_nxt c + (if hdr_ctl h AND FIN \<noteq> 0 then 1 else 0)"
  by (auto simp: process_fin_def Let_def set_state_def split: if_splits state.splits)

lemma process_fin_reset:
  "process_fin t c h = Reset c' evs \<Longrightarrow>
     c' = c \<and> (state c = CLOSE_WAIT \<or> state c = CLOSING \<or> state c = LAST_ACK \<or> state c = TIME_WAIT)"
  by (auto simp: process_fin_def Let_def split: if_splits state.splits)

lemma goto_ack_same:
  "goto_ack u c p er evs = Some (Inr r) \<Longrightarrow> \<exists>n. conn r = Some (c\<lparr>snd_nxt := n\<rparr>)"
  by (auto simp: goto_ack_def split: option.splits sum.splits dest!: ack_frame)


lemma sint_of_nat_small: "k < 2 ^ 31 \<Longrightarrow> sint (of_nat k :: u32) = int k"
  by (simp add: signed_of_nat signed_take_bit_int_eq_self)

lemma seqdiff_add_small: "k < 2 ^ 31 \<Longrightarrow> seqdiff (x + of_nat k) x = int k"
  by (simp add: seqdiff_def sint_of_nat_small)

lemma process_segment_moved:
  assumes r: "process_segment u e c h data = Some (Inr r)" and c': "conn r = Some c'"
  shows "moved c h (length data + 1) c'"
proof -
  let ?a = "word_of_int (seqdiff (hdr_ack h) (snd_una c)) :: u32"
  from r obtain c1 where adv: "advance_una u (now e) c h ?a (length data) = Inr c1"
    by (auto simp: process_segment_def Let_def split: sum.splits)
  note m1 = advance_una_mono [OF adv]
  let ?c1 = "update_timers c1 ?a"
  have una1: "0 \<le> seqdiff (snd_una ?c1) (snd_una c)" and rcv1: "rcv_nxt ?c1 = rcv_nxt c"
    and st1: "state ?c1 = SYN_SENT \<longleftrightarrow> state c = SYN_SENT"
    using m1 by simp_all
  show ?thesis
  proof (cases "process_syn ?c1 h ?a")
    case (Crash x)
    with r adv show ?thesis by (simp add: process_segment_def Let_def)
  next
    case (Reset c2 evs)
    with r adv c' have "c' = c2" by (auto simp: process_segment_def Let_def)
    with process_syn_reset [OF Reset] una1 rcv1 show ?thesis
      by (auto simp: moved_def intro: exI [of _ 0])
  next
    case (Go c2 evs5)
    note s2 = process_syn_go [OF Go]
    have una2: "snd_una c2 = snd_una ?c1" using s2 by simp
    have rcv2: "rcv_nxt c2 = rcv_nxt c \<or> (state c = SYN_SENT \<and> rcv_nxt c2 = hdr_seq h + 1)"
      using s2 rcv1 st1 by (auto split: if_splits)
    show ?thesis
    proof (cases "process_accept u e c2 ?a")
      case (Crash x)
      with r adv Go show ?thesis by (simp add: process_segment_def Let_def)
    next
      case (Reset c3 evs)
      with r adv Go c' have "c' = c3" by (auto simp: process_segment_def Let_def)
      with process_accept_same [of u e c2 ?a c3 evs] Reset una1 una2 rcv2 show ?thesis
        by (auto simp: moved_def intro: exI [of _ 0])
    next
      case (Go c3 evs6)
      note acc = Go
      from process_accept_same [of u e c2 ?a c3 evs6] acc
      have una3: "snd_una c3 = snd_una c2" and rcv3: "rcv_nxt c3 = rcv_nxt c2" by simp_all
      show ?thesis
      proof (cases "process_data e c3 data")
        case (Crash x)
        with r adv \<open>process_syn ?c1 h ?a = Go c2 evs5\<close> acc show ?thesis
          by (simp add: process_segment_def Let_def)
      next
        case (Reset c4 evs)
        with r adv \<open>process_syn ?c1 h ?a = Go c2 evs5\<close> acc c' have "c' = c4"
          by (auto simp: process_segment_def Let_def)
        with process_data_reset [OF Reset] una1 una2 una3 rcv2 rcv3 show ?thesis
          by (auto simp: moved_def intro: exI [of _ 0])
      next
        case (Go c4 evs6')
        note dat = Go
        from process_data_go [OF dat]
        have una4: "snd_una c4 = snd_una c3"
          and rcv4: "rcv_nxt c4 = rcv_nxt c3 + of_nat (length data)" by simp_all
        show ?thesis
        proof (cases "process_fin (now e) c4 h")
          case (Crash x)
          with r adv \<open>process_syn ?c1 h ?a = Go c2 evs5\<close> acc dat show ?thesis
            by (simp add: process_segment_def Let_def)
        next
          case (Reset c5 evs)
          with r adv \<open>process_syn ?c1 h ?a = Go c2 evs5\<close> acc dat c' have "c' = c5"
            by (auto simp: process_segment_def Let_def)
          with process_fin_reset [OF Reset] una1 una2 una3 una4 rcv2 rcv3 rcv4 show ?thesis
            by (auto simp: moved_def intro: exI [of _ "length data"])
        next
          case (Go c5 evs7)
          from process_fin_go [OF Go]
          have una5: "snd_una c5 = snd_una c4"
            and rcv5: "rcv_nxt c5 = rcv_nxt c4 + (if hdr_ctl h AND FIN \<noteq> 0 then 1 else 0)"
            by simp_all
          from r adv \<open>process_syn ?c1 h ?a = Go c2 evs5\<close> acc dat Go
          have "\<exists>er evs. goto_ack u c5 (rcv_nxt c) er evs = Some (Inr r)"
            by (auto simp: process_segment_def Let_def)
          with goto_ack_same c' obtain n where "c' = c5\<lparr>snd_nxt := n\<rparr>" by fastforce
          then have "snd_una c' = snd_una c5" "rcv_nxt c' = rcv_nxt c5" by simp_all
          with una1 una2 una3 una4 una5 rcv2 rcv3 rcv4 rcv5 show ?thesis
            by (cases "hdr_ctl h AND FIN \<noteq> 0")
               (auto simp: moved_def intro: exI [of _ "length data"] exI [of _ "Suc (length data)"])
        qed
      qed
    qed
  qed
qed


text \<open>How \<open>conn_syn_sent\<close> comes about.\<close>

lemma conn_syn_sent_made:
  "utcp_connect host_ex env_ex 7 0 0 =
     Some (Inr \<lparr>cerr = None, chost = host_ex\<lparr>connections := [conn_syn_sent]\<rparr>, cconn = Some 0,
                cout = [Send \<lparr>hdr_src = 32769, hdr_dst = 7, hdr_seq = 9, hdr_ack = 0,
                              hdr_wnd = 3, hdr_ctl = 1, hdr_aux = 0\<rparr> []]\<rparr>)"
  by code_simp

text \<open>C4 as stated fails: the SYN+ACK of a peer whose initial sequence number is \<open>2^31\<close> is
  accepted by the connection in SYN\_SENT, and \<^verbatim>\<open>rcv.nxt\<close> goes from 0 to \<open>2^31 + 1\<close>, which
  \<^verbatim>\<open>seqdiff\<close> counts as a step back.\<close>

theorem syn_ack_moves_rcv_nxt_back:
  "acceptable conn_syn_sent (seg_ex 0x80000000 10 3)
   \<and> utcp_recv_conn host_ex env_ex conn_syn_sent (seg_ex 0x80000000 10 3) [] =
       Some (Inr \<lparr>ret = 0, err = None,
                  conn = Some (conn_ex\<lparr>snd_cwnd := 6, rcv_irs := 0x80000000,
                                       rcv_nxt := 0x80000001\<rparr>),
                  out = [Send \<lparr>hdr_src = 32769, hdr_dst = 7, hdr_seq = 10,
                               hdr_ack = 0x80000001, hdr_wnd = 3, hdr_ctl = 2,
                               hdr_aux = 0\<rparr> []]\<rparr>)
   \<and> seqdiff 0x80000001 (rcv_nxt conn_syn_sent) < 0"
  by code_simp

lemma utcp_recv_conn_moved:
  assumes r: "utcp_recv_conn u e c h data = Some (Inr r)" and c': "conn r = Some c'"
  shows "moved c h (length data + 1) c'"
proof (cases "state c = CLOSED \<or> \<not> acceptable c h \<or> invalid_ack (c\<lparr>snd_wnd := hdr_wnd h\<rparr>) h
                \<or> hdr_ctl h AND RST \<noteq> 0")
  case True
  have same: "snd_una c' = snd_una c \<and> rcv_nxt c' = rcv_nxt c"
    using True r c'
    by (auto simp: utcp_recv_conn_def Let_def handle_rst_def set_state_def
             split: if_splits state.splits dest!: goto_ack_same)
  then show ?thesis by (auto simp: moved_def seqdiff_def intro: exI [of _ 0])
next
  case False
  with r have "process_segment u e (c\<lparr>snd_wnd := hdr_wnd h\<rparr>) h data = Some (Inr r)"
    by (auto simp: utcp_recv_conn_def Let_def split: if_splits)
  from process_segment_moved [OF this c'] show ?thesis by (simp add: moved_def)
qed

text \<open>C4, amended. When processing a segment with a payload of less than \<open>2^31 - 2\<close> bytes
  returns and the connection is still there, \<^verbatim>\<open>snd.una\<close> is not less than before under
  \<^verbatim>\<open>seqdiff\<close>; \<^verbatim>\<open>rcv.nxt\<close> is not less than before unless the connection was in SYN\_SENT,
  and there it is not less than before or it lies after the \<^verbatim>\<open>hdr.seq\<close> of the segment
  (the handshake sets it from the peer's initial sequence number).\<close>

theorem segment_never_moves_back:
  assumes "utcp_recv_conn u e c h data = Some (Inr r)" and "conn r = Some c'"
    and "length data + 2 < 2 ^ 31"
  shows "0 \<le> seqdiff (snd_una c') (snd_una c)
       \<and> (state c \<noteq> SYN_SENT \<longrightarrow> 0 \<le> seqdiff (rcv_nxt c') (rcv_nxt c))
       \<and> (state c = SYN_SENT \<longrightarrow>
            0 \<le> seqdiff (rcv_nxt c') (rcv_nxt c) \<or> 0 < seqdiff (rcv_nxt c') (hdr_seq h))"
proof -
  from utcp_recv_conn_moved [OF assms(1,2)]
  have una: "0 \<le> seqdiff (snd_una c') (snd_una c)"
    and rcv: "(\<exists>k\<le>length data + 1. rcv_nxt c' = rcv_nxt c + of_nat k)
        \<or> (state c = SYN_SENT \<and> (\<exists>k\<le>length data + 1. rcv_nxt c' = hdr_seq h + 1 + of_nat k))"
    by (simp_all add: moved_def)
  have a: "0 \<le> seqdiff (rcv_nxt c') (rcv_nxt c)"
    if "k \<le> length data + 1" and "rcv_nxt c' = rcv_nxt c + of_nat k" for k
    using that assms(3) seqdiff_add_small [of k "rcv_nxt c"] by simp
  have b: "0 < seqdiff (rcv_nxt c') (hdr_seq h)"
    if "k \<le> length data + 1" and "rcv_nxt c' = hdr_seq h + 1 + of_nat k" for k
  proof -
    have "rcv_nxt c' = hdr_seq h + of_nat (Suc k)" using that by simp
    moreover have "seqdiff (hdr_seq h + of_nat (Suc k)) (hdr_seq h) = int (Suc k)"
      using that assms(3) by (intro seqdiff_add_small) simp
    ultimately show ?thesis by simp
  qed
  from una rcv a b show ?thesis by blast
qed

theorem segment_never_moves_back_witness:
  "utcp_recv_conn host_ex env_ex conn_ex (seg_ex 100 10 2) [5, 6] =
     Some (Inr \<lparr>ret = 0, err = None, conn = Some (conn_ex\<lparr>rcv_nxt := 102\<rparr>),
                out = [Send \<lparr>hdr_src = 32769, hdr_dst = 7, hdr_seq = 10, hdr_ack = 102,
                             hdr_wnd = 3, hdr_ctl = 2, hdr_aux = 0\<rparr> []]\<rparr>)
   \<and> length [5 :: byte, 6] + 2 < 2 ^ 31
   \<and> state conn_ex \<noteq> SYN_SENT
   \<and> 0 \<le> seqdiff (snd_una (conn_ex\<lparr>rcv_nxt := 102\<rparr>)) (snd_una conn_ex)
   \<and> 0 \<le> seqdiff (rcv_nxt (conn_ex\<lparr>rcv_nxt := 102\<rparr>)) (rcv_nxt conn_ex)"
proof -
  have r: "utcp_recv_conn host_ex env_ex conn_ex (seg_ex 100 10 2) [5, 6] =
     Some (Inr \<lparr>ret = 0, err = None, conn = Some (conn_ex\<lparr>rcv_nxt := 102\<rparr>),
                out = [Send \<lparr>hdr_src = 32769, hdr_dst = 7, hdr_seq = 10, hdr_ack = 102,
                             hdr_wnd = 3, hdr_ctl = 2, hdr_aux = 0\<rparr> []]\<rparr>)"
    by code_simp
  have s: "state conn_ex \<noteq> SYN_SENT" by (simp add: conn_ex_def)
  from segment_never_moves_back [OF r, of "conn_ex\<lparr>rcv_nxt := 102\<rparr>"] r s show ?thesis
    by simp
qed

section \<open>Acknowledgements that advance \<open>snd.una\<close>\<close>

text \<open>Step 3 by itself does what C2 says.\<close>

lemma advance_una_effect:
  assumes "a \<noteq> 0" and "advance_una u t c h a len = Inr c'"
  shows "snd_una c' = hdr_ack h \<and> dupack c' = 0
       \<and> snd_cwnd c' = (if snd_cwnd c + ucast (mtu u) > maxsndbufsize c then maxsndbufsize c
                         else snd_cwnd c + ucast (mtu u))
       \<and> (state c = FIN_WAIT_1 \<and> hdr_ack h = snd_last c \<longrightarrow> state c' = FIN_WAIT_2)
       \<and> (state c = CLOSING \<and> hdr_ack h = snd_last c \<longrightarrow>
            state c' = TIME_WAIT \<and> conn_timeout c' = t\<lparr>tv_sec := tv_sec t + 60\<rparr>)"
  using assms
  by (auto simp: advance_una_def Let_def set_state_def split: if_splits option.splits state.splits)

text \<open>Step 4 then clears the timer that step 3 armed.\<close>

lemma update_timers_clears:
  "a \<noteq> 0 \<Longrightarrow> conn_timeout (update_timers c a) = timerclear"
  by (simp add: update_timers_def Let_def)

text \<open>C2, at an input where the code departs from it: the connection is in CLOSING and the
  segment acknowledges its FIN. The connection goes to TIME\_WAIT, \<^verbatim>\<open>snd.una\<close> is the
  acknowledgement number, the congestion window has grown by the MTU, but
  \<^verbatim>\<open>conn_timeout\<close> is clear when the call returns, not 60 s after the clock's 1000 s.\<close>

theorem closing_time_wait_timer:
  "utcp_recv_conn host_ex env_ex conn_closing (seg_ex 101 11 2) [] =
     Some (Inr \<lparr>ret = 0, err = None,
                conn = Some (conn_closing\<lparr>state := TIME_WAIT, snd_una := 11, snd_cwnd := 6,
                               dupack := 0, conn_timeout := \<lparr>tv_sec = 0, tv_usec = 0\<rparr>\<rparr>),
                out = []\<rparr>)
   \<and> now env_ex = \<lparr>tv_sec = 1000, tv_usec = 0\<rparr>"
  by code_simp


section \<open>The \<open>poll\<close> callback in the timer sweep\<close>

lemma retransmit_no_poll:
  "retransmit u e c = Inr evs \<Longrightarrow> filter is_poll evs = []"
  by (auto simp: retransmit_def Let_def split: if_splits state.splits option.splits)

lemma timeout_conn_polls:
  assumes "timeout_conn u e c nx = Inr r"
  shows "filter is_poll (calls r) =
           (if poll_due e c then [Poll_cb (src c) (dst c) (unat (maxsndbufsize c - sndbufsize c))]
            else [])"
proof (cases "state c = CLOSED \<or> (timerisset (conn_timeout c) \<and> timer_less (conn_timeout c) (now e))")
  case True
  with assms show ?thesis
    by (auto simp: timeout_conn_def poll_due_def split: if_splits)
next
  case False
  with assms obtain resent where
    rt: "(if timerisset (rtrx_timeout c) \<and> timer_less (rtrx_timeout c) (now e)
              then retransmit u e c else Inr []) = Inr resent"
    by (auto simp: timeout_conn_def split: sum.splits)
  then have np: "filter is_poll resent = []"
    by (auto split: if_splits dest: retransmit_no_poll)
  from assms False rt np show ?thesis
    by (auto simp: timeout_conn_def poll_due_def Let_def)
qed

lemma timeout_loop_polls:
  "timeout_loop u e cs nx er = Inr (cs', evs, nx', er') \<Longrightarrow>
     filter is_poll evs =
       map (\<lambda>c. Poll_cb (src c) (dst c) (unat (maxsndbufsize c - sndbufsize c)))
           (filter (poll_due e) cs)"
proof (induction cs arbitrary: nx er cs' evs nx' er')
  case Nil
  then show ?case by simp
next
  case (Cons c cs)
  from Cons.prems obtain r where r: "timeout_conn u e c nx = Inr r"
    by (auto split: sum.splits)
  with Cons.prems obtain cs2 evs2 where
    rest: "timeout_loop u e cs (deadline r) (case serr r of None \<Rightarrow> er | Some x \<Rightarrow> Some x)
             = Inr (cs2, evs2, nx', er')"
    and evs: "evs = calls r @ evs2"
    by (auto split: sum.splits prod.splits)
  from Cons.IH [OF rest] timeout_conn_polls [OF r] evs show ?case by simp
qed

text \<open>C8, amended. When a sweep returns, the calls of \<^verbatim>\<open>poll\<close> callbacks it made are, in
  the order of the connections, one call for each connection that has a \<^verbatim>\<open>poll\<close> callback
  installed, is in ESTABLISHED or CLOSE\_WAIT, is not closed by this sweep for an expired
  \<^verbatim>\<open>conn_timeout\<close>, and whose send buffer capacity is less than half the maximum rounded
  down (\<^verbatim>\<open>sndbufsize < maxsndbufsize / 2\<close>); the argument is
  \<^verbatim>\<open>maxsndbufsize - sndbufsize\<close>. No other connection's callback is called.\<close>

theorem utcp_timeout_polls:
  assumes "utcp_timeout u e = Inr r"
  shows "filter is_poll (hout r) =
           map (\<lambda>c. Poll_cb (src c) (dst c) (unat (maxsndbufsize c - sndbufsize c)))
               (filter (poll_due e) (connections u))"
proof -
  from assms obtain cs evs nx er where
    l: "timeout_loop u e (connections u)
          \<lparr>tv_sec = tv_sec (now e) + 3600, tv_usec = tv_usec (now e)\<rparr> None = Inr (cs, evs, nx, er)"
    and "hout r = evs"
    by (auto simp: utcp_timeout_def Let_def split: sum.splits prod.splits)
  with timeout_loop_polls [OF l] show ?thesis by simp
qed

theorem utcp_timeout_polls_witness:
  "utcp_timeout (host_ex\<lparr>connections := [conn_roomy, conn_odd]\<rparr>) env_ex =
     Inr \<lparr>hret = 3600000, herr = None,
          host = Some (host_ex\<lparr>connections := [conn_roomy, conn_odd]\<rparr>),
          hout = [Poll_cb 32769 7 7]\<rparr>
   \<and> filter is_poll [Poll_cb 32769 7 7] =
       map (\<lambda>c. Poll_cb (src c) (dst c) (unat (maxsndbufsize c - sndbufsize c)))
           (filter (poll_due env_ex) [conn_roomy, conn_odd])"
proof -
  have r: "utcp_timeout (host_ex\<lparr>connections := [conn_roomy, conn_odd]\<rparr>) env_ex =
     Inr \<lparr>hret = 3600000, herr = None,
          host = Some (host_ex\<lparr>connections := [conn_roomy, conn_odd]\<rparr>),
          hout = [Poll_cb 32769 7 7]\<rparr>"
    by code_simp
  from utcp_timeout_polls [OF r] r show ?thesis by simp
qed

text \<open>C8 as stated fails: \<open>conn_odd\<close> has a \<^verbatim>\<open>poll\<close> callback, is established and 7 of its
  maximum of 13 bytes are free, more than half; the sweep does not call the callback.\<close>

theorem poll_skipped_at_odd_maximum:
  "poll conn_odd \<noteq> 0 \<and> state conn_odd = ESTABLISHED
   \<and> unat (maxsndbufsize conn_odd) < 2 * unat (maxsndbufsize conn_odd - sndbufsize conn_odd)
   \<and> utcp_timeout (host_ex\<lparr>connections := [conn_odd]\<rparr>) env_ex =
       Inr \<lparr>hret = 3600000, herr = None, host = Some (host_ex\<lparr>connections := [conn_odd]\<rparr>),
            hout = []\<rparr>"
  by code_simp


section \<open>An established connection has no connection timer\<close>

text \<open>The steps a segment went through when its processing returned.\<close>

lemma process_segment_path:
  assumes r: "process_segment u e c h data = Some (Inr r)" and c': "conn r = Some c'"
  shows "\<exists>c1. advance_una u (now e) c h (word_of_int (seqdiff (hdr_ack h) (snd_una c)))
                 (length data) = Inr c1
     \<and> ((\<exists>evs. process_syn (update_timers c1 (word_of_int (seqdiff (hdr_ack h) (snd_una c)))) h
                  (word_of_int (seqdiff (hdr_ack h) (snd_una c))) = Reset c' evs)
        \<or> (\<exists>c2 evs5. process_syn (update_timers c1 (word_of_int (seqdiff (hdr_ack h) (snd_una c)))) h
                  (word_of_int (seqdiff (hdr_ack h) (snd_una c))) = Go c2 evs5
            \<and> ((\<exists>evs. process_accept u e c2 (word_of_int (seqdiff (hdr_ack h) (snd_una c)))
                         = Reset c' evs)
               \<or> (\<exists>c3 evs6. process_accept u e c2 (word_of_int (seqdiff (hdr_ack h) (snd_una c)))
                         = Go c3 evs6
                   \<and> ((\<exists>evs. process_data e c3 data = Reset c' evs)
                      \<or> (\<exists>c4 evs6'. process_data e c3 data = Go c4 evs6'
                          \<and> ((\<exists>evs. process_fin (now e) c4 h = Reset c' evs)
                             \<or> (\<exists>c5 evs7 n. process_fin (now e) c4 h = Go c5 evs7
                                   \<and> c' = c5\<lparr>snd_nxt := n\<rparr>))))))))"
proof -
  let ?a = "word_of_int (seqdiff (hdr_ack h) (snd_una c)) :: u32"
  from r obtain c1 where adv: "advance_una u (now e) c h ?a (length data) = Inr c1"
    by (auto simp: process_segment_def Let_def split: sum.splits)
  let ?c1 = "update_timers c1 ?a"
  have ?thesis if "process_syn ?c1 h ?a = Crash x" for x
    using r adv that by (simp add: process_segment_def Let_def)
  moreover have ?thesis if "process_syn ?c1 h ?a = Reset c2 evs" for c2 evs
  proof -
    from r adv c' that have "c' = c2" by (auto simp: process_segment_def Let_def)
    with adv that show ?thesis by blast
  qed
  moreover have ?thesis if syn: "process_syn ?c1 h ?a = Go c2 evs5" for c2 evs5
  proof -
    have ?thesis if "process_accept u e c2 ?a = Crash x" for x
      using r adv syn that by (simp add: process_segment_def Let_def)
    moreover have ?thesis if "process_accept u e c2 ?a = Reset c3 evs" for c3 evs
    proof -
      from r adv c' syn that have "c' = c3" by (auto simp: process_segment_def Let_def)
      with adv syn that show ?thesis by blast
    qed
    moreover have ?thesis if acc: "process_accept u e c2 ?a = Go c3 evs6" for c3 evs6
    proof -
      have ?thesis if "process_data e c3 data = Crash x" for x
        using r adv syn acc that by (simp add: process_segment_def Let_def)
      moreover have ?thesis if "process_data e c3 data = Reset c4 evs" for c4 evs
      proof -
        from r adv c' syn acc that have "c' = c4" by (auto simp: process_segment_def Let_def)
        with adv syn acc that show ?thesis by blast
      qed
      moreover have ?thesis if dat: "process_data e c3 data = Go c4 evs6'" for c4 evs6'
      proof -
        have ?thesis if "process_fin (now e) c4 h = Crash x" for x
          using r adv syn acc dat that by (simp add: process_segment_def Let_def)
        moreover have ?thesis if "process_fin (now e) c4 h = Reset c5 evs" for c5 evs
        proof -
          from r adv c' syn acc dat that have "c' = c5"
            by (auto simp: process_segment_def Let_def)
          with adv syn acc dat that show ?thesis by blast
        qed
        moreover have ?thesis if fin: "process_fin (now e) c4 h = Go c5 evs7" for c5 evs7
        proof -
          from r adv syn acc dat fin
          have "\<exists>er evs. goto_ack u c5 (rcv_nxt c) er evs = Some (Inr r)"
            by (auto simp: process_segment_def Let_def)
          with goto_ack_same c' obtain n where "c' = c5\<lparr>snd_nxt := n\<rparr>" by fastforce
          with adv syn acc dat fin show ?thesis by blast
        qed
        ultimately show ?thesis by (cases "process_fin (now e) c4 h") blast+
      qed
      ultimately show ?thesis by (cases "process_data e c3 data") blast+
    qed
    ultimately show ?thesis by (cases "process_accept u e c2 ?a") blast+
  qed
  ultimately show ?thesis by (cases "process_syn ?c1 h ?a") blast+
qed


lemma set_state_timer_ok [simp]:
  "timer_ok (set_state c ESTABLISHED)"
  "s \<noteq> ESTABLISHED \<Longrightarrow> timer_ok (set_state c s)"
  by (simp_all add: timer_ok_def set_state_def timerclear_def)

lemma timer_ok_snd_nxt [simp]: "timer_ok (c\<lparr>snd_nxt := n\<rparr>) = timer_ok c"
  by (simp add: timer_ok_def)

lemma advance_una_timer_ok:
  "advance_una u t c h a len = Inr c' \<Longrightarrow> timer_ok c \<Longrightarrow> timer_ok c'"
  by (auto simp: advance_una_def Let_def timer_ok_def set_state_def
           split: if_splits option.splits state.splits)

lemma update_timers_timer_ok: "timer_ok c \<Longrightarrow> timer_ok (update_timers c a)"
  by (auto simp: update_timers_def Let_def timer_ok_def)

lemma process_syn_timer_ok:
  "process_syn c h a = Go c' evs \<or> process_syn c h a = Reset c' evs \<Longrightarrow> timer_ok c
     \<Longrightarrow> timer_ok c'"
  by (auto simp: process_syn_def Let_def timer_ok_def set_state_def
           split: if_splits state.splits)

lemma utcp_accept_timer_ok: "timer_ok c \<Longrightarrow> timer_ok (utcp_accept c r p)"
  by (auto simp: utcp_accept_def timer_ok_def set_state_def)

lemma process_accept_timer_ok:
  "process_accept u e c a = Go c' evs \<or> process_accept u e c a = Reset c' evs \<Longrightarrow> timer_ok c
     \<Longrightarrow> timer_ok c'"
  by (auto simp: process_accept_def Let_def timer_ok_def set_state_def utcp_accept_def
           split: if_splits option.splits prod.splits)

lemma process_data_timer_ok:
  "process_data e c data = Go c' evs \<or> process_data e c data = Reset c' evs \<Longrightarrow> timer_ok c
     \<Longrightarrow> timer_ok c'"
  by (auto simp: process_data_def Let_def timer_ok_def split: if_splits state.splits)

lemma process_fin_timer_ok:
  "process_fin t c h = Go c' evs \<or> process_fin t c h = Reset c' evs \<Longrightarrow> timer_ok c
     \<Longrightarrow> timer_ok c'"
  by (auto simp: process_fin_def Let_def timer_ok_def set_state_def
           split: if_splits state.splits)

lemma process_segment_timer_ok:
  assumes "process_segment u e c h data = Some (Inr r)" and "conn r = Some c'" and "timer_ok c"
  shows "timer_ok c'"
proof -
  let ?a = "word_of_int (seqdiff (hdr_ack h) (snd_una c)) :: u32"
  from process_segment_path [OF assms(1,2)] obtain c1 where
    adv: "advance_una u (now e) c h ?a (length data) = Inr c1"
    and rest: "(\<exists>evs. process_syn (update_timers c1 ?a) h ?a = Reset c' evs)
        \<or> (\<exists>c2 evs5. process_syn (update_timers c1 ?a) h ?a = Go c2 evs5
            \<and> ((\<exists>evs. process_accept u e c2 ?a = Reset c' evs)
               \<or> (\<exists>c3 evs6. process_accept u e c2 ?a = Go c3 evs6
                   \<and> ((\<exists>evs. process_data e c3 data = Reset c' evs)
                      \<or> (\<exists>c4 evs6'. process_data e c3 data = Go c4 evs6'
                          \<and> ((\<exists>evs. process_fin (now e) c4 h = Reset c' evs)
                             \<or> (\<exists>c5 evs7 n. process_fin (now e) c4 h = Go c5 evs7
                                   \<and> c' = c5\<lparr>snd_nxt := n\<rparr>)))))))"
    by blast
  have t1: "timer_ok (update_timers c1 ?a)"
    using advance_una_timer_ok [OF adv assms(3)] by (rule update_timers_timer_ok)
  from rest t1 show ?thesis
    by (metis process_syn_timer_ok process_accept_timer_ok process_data_timer_ok
              process_fin_timer_ok timer_ok_snd_nxt)
qed

lemma handle_rst_timer_ok:
  "handle_rst c h = Inr r \<Longrightarrow> conn r = Some c' \<Longrightarrow> timer_ok c \<Longrightarrow> timer_ok c'"
  by (auto simp: handle_rst_def Let_def split: if_splits state.splits)

lemma timer_ok_snd_wnd [simp]: "timer_ok (c\<lparr>snd_wnd := n\<rparr>) = timer_ok c"
  by (simp add: timer_ok_def)

lemma utcp_recv_conn_timer_ok:
  assumes r: "utcp_recv_conn u e c h data = Some (Inr r)" and c': "conn r = Some c'"
    and ok: "timer_ok c"
  shows "timer_ok c'"
proof (cases "state c = CLOSED \<or> \<not> acceptable c h \<or> invalid_ack (c\<lparr>snd_wnd := hdr_wnd h\<rparr>) h
                \<or> hdr_ctl h AND RST \<noteq> 0")
  case True
  with r c' ok show ?thesis
    by (auto simp: utcp_recv_conn_def Let_def
             split: if_splits dest!: goto_ack_same handle_rst_timer_ok)
next
  case False
  with r have "process_segment u e (c\<lparr>snd_wnd := hdr_wnd h\<rparr>) h data = Some (Inr r)"
    by (auto simp: utcp_recv_conn_def Let_def split: if_splits)
  from process_segment_timer_ok [OF this c'] ok show ?thesis by simp
qed


lemma all_update:
  "\<forall>c\<in>set cs. P c \<Longrightarrow> P x \<Longrightarrow> \<forall>c\<in>set (cs[i := x]). P c"
  using set_update_subset_insert [of cs i x] by auto

lemma all_free_connection:
  "\<forall>c\<in>set cs. P c \<Longrightarrow> \<forall>c\<in>set (free_connection cs i). P c"
  by (auto simp: free_connection_def dest: in_set_takeD in_set_dropD)

lemma new_connection_timer_ok: "timer_ok (new_connection u e s d)"
  by (simp add: new_connection_def timer_ok_def Let_def)

lemma all_insert:
  "\<forall>c\<in>set cs. P c \<Longrightarrow> P x \<Longrightarrow> \<forall>c\<in>set (take i cs @ [x] @ drop i cs). P c"
  by (auto dest: in_set_takeD in_set_dropD)

lemma allocate_connection_shape:
  assumes "allocate_connection u e s d = Some (Inr (Inr (u', i)))"
  shows "\<exists>s'. connections u' =
           take i (connections u) @ [new_connection u e s' d] @ drop i (connections u)"
  using assms
  by (auto simp: allocate_connection_def Let_def split: if_splits sum.splits option.splits)

lemma allocate_connection_timer_ok:
  assumes "allocate_connection u e s d = Some (Inr (Inr (u', i)))"
    and "\<forall>c\<in>set (connections u). timer_ok c"
  shows "\<forall>c\<in>set (connections u'). timer_ok c"
proof -
  from allocate_connection_shape [OF assms(1)] obtain s' where
    "connections u' =
       take i (connections u) @ [new_connection u e s' d] @ drop i (connections u)" ..
  with all_insert [OF assms(2) new_connection_timer_ok [of u e s' d], of i]
  show ?thesis by simp
qed

lemma utcp_connect_timer_ok:
  assumes "utcp_connect u e d r p = Some (Inr res)"
    and "\<forall>c\<in>set (connections u). timer_ok c"
  shows "\<forall>c\<in>set (connections (chost res)). timer_ok c"
proof (cases "allocate_connection u e 0 d")
  case None
  with assms show ?thesis by (simp add: utcp_connect_def)
next
  case (Some a)
  show ?thesis
  proof (cases a)
    case (Inl x)
    with Some assms show ?thesis by (simp add: utcp_connect_def)
  next
    case (Inr b)
    show ?thesis
    proof (cases b)
      case (Inl er)
      with Some Inr assms show ?thesis by (auto simp: utcp_connect_def)
    next
      case (Inr ui)
      obtain u' i where ui: "ui = (u', i)" by (cases ui)
      with Some \<open>a = Inr b\<close> Inr have al: "allocate_connection u e 0 d = Some (Inr (Inr (u', i)))"
        by simp
      note ok' = allocate_connection_timer_ok [OF al assms(2)]
      define c where "c = (set_state ((connections u' ! i)\<lparr>recv := r, priv := p\<rparr>) SYN_SENT)
                            \<lparr>conn_timeout := (now e)\<lparr>tv_sec := tv_sec (now e) + timeout u'\<rparr>\<rparr>"
      have tc: "timer_ok c" by (simp add: c_def timer_ok_def set_state_def)
      from assms(1) al have "connections (chost res) = (connections u')[i := c]"
        by (auto simp: utcp_connect_def Let_def c_def)
      with all_update [OF ok' tc, of i] show ?thesis by simp
    qed
  qed
qed

lemma recv_unmatched_timer_ok:
  assumes "recv_unmatched u e h = Some (Inr res)" and "host res = Some u'"
    and "\<forall>c\<in>set (connections u). timer_ok c"
  shows "\<forall>c\<in>set (connections u'). timer_ok c"
proof (cases "hdr_ctl h AND RST = 0 \<and> hdr_ctl h AND SYN \<noteq> 0 \<and> hdr_ctl h AND ACK = 0
              \<and> accept u \<noteq> 0 \<and> \<not> (pre_accept u \<noteq> 0 \<and> \<not> on_pre_accept e)")
  case False
  with assms show ?thesis by (auto simp: recv_unmatched_def Let_def split: if_splits)
next
  case True
  show ?thesis
  proof (cases "allocate_connection u e (hdr_dst h) (hdr_src h)")
    case None
    with True assms show ?thesis by (auto simp: recv_unmatched_def Let_def)
  next
    case (Some a)
    show ?thesis
    proof (cases a)
      case (Inl x)
      with True Some assms show ?thesis by (auto simp: recv_unmatched_def Let_def)
    next
      case (Inr b)
      show ?thesis
      proof (cases b)
        case (Inl er)
        with True Some Inr assms show ?thesis by (auto simp: recv_unmatched_def Let_def)
      next
        case (Inr ui)
        obtain u2 i where ui: "ui = (u2, i)" by (cases ui)
        with Some \<open>a = Inr b\<close> Inr
        have al: "allocate_connection u e (hdr_dst h) (hdr_src h) = Some (Inr (Inr (u2, i)))"
          by simp
        note ok' = allocate_connection_timer_ok [OF al assms(3)]
        define c where "c = set_state ((connections u2 ! i)\<lparr>snd_wnd := hdr_wnd h,
                               rcv_irs := hdr_seq h, rcv_nxt := hdr_seq h + 1\<rparr>) SYN_RECEIVED"
        have tc: "timer_ok c" by (simp add: c_def)
        from True have "\<not> (pre_accept u \<noteq> 0 \<and> \<not> on_pre_accept e)" by simp
        with assms(1,2) True al have "connections u' = (connections u2)[i := c]"
          by (auto simp: recv_unmatched_def Let_def c_def)
        with all_update [OF ok' tc, of i] show ?thesis by simp
      qed
    qed
  qed
qed

lemma find_connection_index:
  "find_connection u s d = Inr (Some i) \<Longrightarrow> i < length (connections u)"
proof -
  have "find_pos P xs = Some i \<Longrightarrow> i < length xs" for P :: "utcp_connection \<Rightarrow> bool" and xs i
    by (induction xs arbitrary: i) (auto split: if_splits)
  then show "find_connection u s d = Inr (Some i) \<Longrightarrow> i < length (connections u)"
    by (auto simp: find_connection_def split: if_splits)
qed

lemma utcp_recv_timer_ok:
  assumes r: "utcp_recv e (Some u) data = Some (Inr res)" and u': "host res = Some u'"
    and ok: "\<forall>c\<in>set (connections u). timer_ok c"
  shows "\<forall>c\<in>set (connections u'). timer_ok c"
proof (cases "buf_len data = 0")
  case True
  with r u' ok show ?thesis by (auto simp: utcp_recv_def)
next
  case False
  show ?thesis
  proof (cases data)
    case (Null n)
    with False r u' ok show ?thesis by (auto simp: utcp_recv_def)
  next
    case (Buf bs)
    let ?h = "parse_hdr (big_endian e) (take sizeof_hdr bs)"
    show ?thesis
    proof (cases "length bs < sizeof_hdr \<or> hdr_ctl ?h AND NOT (SYN OR ACK OR RST OR FIN) \<noteq> 0")
      case True
      with False Buf r u' ok show ?thesis by (auto simp: utcp_recv_def Let_def split: if_splits)
    next
      case good: False
      show ?thesis
      proof (cases "find_connection u (hdr_dst ?h) (hdr_src ?h)")
        case (Inl x)
        with False Buf good r show ?thesis by (auto simp: utcp_recv_def Let_def)
      next
        case (Inr m)
        show ?thesis
        proof (cases m)
          case None
          with False Buf good Inr r have "recv_unmatched u e ?h = Some (Inr res)"
            by (auto simp: utcp_recv_def Let_def)
          from recv_unmatched_timer_ok [OF this u' ok] show ?thesis .
        next
          case (Some i)
          with Inr have i: "i < length (connections u)" by (auto dest: find_connection_index)
          then have oki: "timer_ok (connections u ! i)" using ok by simp
          from False Buf good Inr Some r obtain rc where
            rc: "utcp_recv_conn u e (connections u ! i) ?h (drop sizeof_hdr bs) = Some (Inr rc)"
            and res: "host res = Some (u\<lparr>connections :=
                        (case conn rc of None \<Rightarrow> free_connection (connections u) i
                         | Some c \<Rightarrow> (connections u)[i := c])\<rparr>)"
            by (auto simp: utcp_recv_def Let_def split: option.splits sum.splits)
          show ?thesis
          proof (cases "conn rc")
            case None
            with res u' ok show ?thesis by (auto intro: all_free_connection [rule_format])
          next
            case (Some c)
            from utcp_recv_conn_timer_ok [OF rc Some oki] have tc: "timer_ok c" .
            from Some res u' have "connections u' = (connections u)[i := c]" by auto
            with all_update [OF ok tc, of i] show ?thesis by simp
          qed
        qed
      qed
    qed
  qed
qed


lemma timeout_conn_timer_ok:
  "timeout_conn u e c nx = Inr r \<Longrightarrow> swept r = Some c' \<Longrightarrow> timer_ok c \<Longrightarrow> timer_ok c'"
  by (auto simp: timeout_conn_def Let_def timer_ok_def split: if_splits sum.splits)

lemma timeout_loop_timer_ok:
  "timeout_loop u e cs nx er = Inr (cs', evs, nx', er') \<Longrightarrow> \<forall>c\<in>set cs. timer_ok c
     \<Longrightarrow> \<forall>c\<in>set cs'. timer_ok c"
proof (induction cs arbitrary: nx er cs' evs nx' er')
  case Nil
  then show ?case by simp
next
  case (Cons c cs)
  from Cons.prems(1) obtain r where r: "timeout_conn u e c nx = Inr r"
    by (auto split: sum.splits)
  with Cons.prems(1) obtain cs2 evs2 where
    rest: "timeout_loop u e cs (deadline r) (case serr r of None \<Rightarrow> er | Some x \<Rightarrow> Some x)
             = Inr (cs2, evs2, nx', er')"
    and cs': "cs' = (case swept r of None \<Rightarrow> cs2 | Some c \<Rightarrow> c # cs2)"
    by (auto split: sum.splits prod.splits)
  from Cons.IH [OF rest] Cons.prems(2) have "\<forall>c\<in>set cs2. timer_ok c" by simp
  with cs' timeout_conn_timer_ok [OF r] Cons.prems(2) show ?case
    by (auto split: option.splits)
qed

lemma utcp_timeout_timer_ok:
  assumes "utcp_timeout u e = Inr res" and "host res = Some u'"
    and "\<forall>c\<in>set (connections u). timer_ok c"
  shows "\<forall>c\<in>set (connections u'). timer_ok c"
proof -
  from assms(1,2) obtain cs evs nx er where
    l: "timeout_loop u e (connections u)
          \<lparr>tv_sec = tv_sec (now e) + 3600, tv_usec = tv_usec (now e)\<rparr> None = Inr (cs, evs, nx, er)"
    and "connections u' = cs"
    by (auto simp: utcp_timeout_def Let_def split: sum.splits prod.splits)
  with timeout_loop_timer_ok [OF l assms(3)] show ?thesis by simp
qed

lemma ack_keeps:
  "ack u c b = Some (Inr (c', evs)) \<Longrightarrow> state c' = state c \<and> conn_timeout c' = conn_timeout c"
  by (auto dest!: ack_frame)

lemma send_data_timer_ok:
  assumes "send_data u grow c data = Some (Inr res)" and "conn res = Some c'" and "timer_ok c"
  shows "timer_ok c'"
proof -
  from assms(1,2) have "state c' = state c \<and> conn_timeout c' = conn_timeout c"
    by (auto simp: send_data_def Let_def
             split: if_splits cbuf.splits option.splits sum.splits dest!: ack_keeps)
  with assms(3) show ?thesis by (simp add: timer_ok_def)
qed

lemma utcp_send_timer_ok:
  "utcp_send u grow c data = Some (Inr res) \<Longrightarrow> conn res = Some c' \<Longrightarrow> timer_ok c
     \<Longrightarrow> timer_ok c'"
  by (auto simp: utcp_send_def split: if_splits state.splits dest: send_data_timer_ok)

lemma utcp_shutdown_timer_ok:
  assumes "utcp_shutdown u (Some c) d = Some (Inr res)" and "conn res = Some c'"
    and "timer_ok c"
  shows "timer_ok c'"
proof (cases "reapable c")
  case True
  with assms show ?thesis by (auto simp: utcp_shutdown_def)
next
  case False
  from utcp_shutdown_state [OF False assms(1)] assms(2)
  have "state c' \<noteq> ESTABLISHED" by auto
  then show ?thesis by (simp add: timer_ok_def)
qed

lemma utcp_close_timer_ok:
  assumes "utcp_close u (Some c) = Some (Inr res)" and "conn res = Some c'" and "timer_ok c"
  shows "timer_ok c'"
proof -
  from assms(1,2) obtain r c1 where "utcp_shutdown u (Some c) 2 = Some (Inr r)"
    and "conn r = Some c1" and "c' = c1 \<or> c' = c1\<lparr>reapable := True\<rparr>"
    by (auto simp: utcp_close_def split: option.splits sum.splits if_splits)
  with utcp_shutdown_timer_ok [of u c 2 r c1] assms(3) show ?thesis
    by (auto simp: timer_ok_def)
qed

lemma utcp_abort_timer_ok:
  "conn (utcp_abort junk (Some c)) = Some c' \<Longrightarrow> timer_ok c \<Longrightarrow> timer_ok c'"
  by (auto simp: utcp_abort_def Let_def timer_ok_def set_state_def
           split: if_splits state.splits)

lemma setters_timer_ok:
  "timer_ok c \<Longrightarrow> timer_ok (utcp_set_sndbuf c n)"
  "timer_ok c \<Longrightarrow> timer_ok (utcp_set_nodelay c b)"
  "timer_ok c \<Longrightarrow> timer_ok (utcp_set_keepalive c b)"
  "timer_ok c \<Longrightarrow> timer_ok (utcp_set_recv_cb c r)"
  "timer_ok c \<Longrightarrow> timer_ok (utcp_set_poll_cb c p)"
  by (simp_all add: timer_ok_def utcp_set_sndbuf_def utcp_set_nodelay_def utcp_set_keepalive_def
        utcp_set_recv_cb_def utcp_set_poll_cb_def Let_def)

lemma reachable_timer_ok:
  "reachable u \<Longrightarrow> \<forall>c\<in>set (connections u). timer_ok c"
proof (induction rule: reachable.induct)
  case (init a p s u)
  then show ?case by (auto simp: utcp_init_def split: if_splits)
next
  case (connect u e d r p res)
  then show ?case using utcp_connect_timer_ok by blast
next
  case (recv u e data res u')
  then show ?case using utcp_recv_timer_ok by blast
next
  case (timeout u e res u')
  then show ?case using utcp_timeout_timer_ok by blast
next
  case (send u i grow data res c)
  then have "timer_ok c" using utcp_send_timer_ok [of u grow "connections u ! i" data res c]
    by simp
  with send.IH show ?case using all_update [of "connections u" timer_ok c i] by simp
next
  case (shutdown u i dir res c)
  then have "timer_ok c" using utcp_shutdown_timer_ok [of u "connections u ! i" dir res c]
    by simp
  with shutdown.IH show ?case using all_update [of "connections u" timer_ok c i] by simp
next
  case (close u i res c)
  then have "timer_ok c" using utcp_close_timer_ok [of u "connections u ! i" res c] by simp
  with close.IH show ?case using all_update [of "connections u" timer_ok c i] by simp
next
  case (abort u i junk c)
  then have "timer_ok c" using utcp_abort_timer_ok [of junk "connections u ! i" c] by simp
  with abort.IH show ?case using all_update [of "connections u" timer_ok c i] by simp
next
  case (accept u i r p)
  then have "timer_ok (utcp_accept (connections u ! i) r p)"
    by (simp add: utcp_accept_timer_ok)
  with accept.IH show ?case
    using all_update [of "connections u" timer_ok "utcp_accept (connections u ! i) r p" i]
    by simp
next
  case (set_mtu u m)
  then show ?case by (simp add: utcp_set_mtu_def)
next
  case (set_user_timeout u t)
  then show ?case by (simp add: utcp_set_user_timeout_def)
next
  case (set_sndbuf u i n)
  then have "timer_ok (utcp_set_sndbuf (connections u ! i) n)" by (simp add: setters_timer_ok)
  with set_sndbuf.IH show ?case
    using all_update [of "connections u" timer_ok "utcp_set_sndbuf (connections u ! i) n" i]
    by simp
next
  case (set_nodelay u i b)
  then have "timer_ok (utcp_set_nodelay (connections u ! i) b)" by (simp add: setters_timer_ok)
  with set_nodelay.IH show ?case
    using all_update [of "connections u" timer_ok "utcp_set_nodelay (connections u ! i) b" i]
    by simp
next
  case (set_keepalive u i b)
  then have "timer_ok (utcp_set_keepalive (connections u ! i) b)"
    by (simp add: setters_timer_ok)
  with set_keepalive.IH show ?case
    using all_update [of "connections u" timer_ok "utcp_set_keepalive (connections u ! i) b" i]
    by simp
next
  case (set_recv_cb u i r)
  then have "timer_ok (utcp_set_recv_cb (connections u ! i) r)" by (simp add: setters_timer_ok)
  with set_recv_cb.IH show ?case
    using all_update [of "connections u" timer_ok "utcp_set_recv_cb (connections u ! i) r" i]
    by simp
next
  case (set_poll_cb u i p)
  then have "timer_ok (utcp_set_poll_cb (connections u ! i) p)" by (simp add: setters_timer_ok)
  with set_poll_cb.IH show ?case
    using all_update [of "connections u" timer_ok "utcp_set_poll_cb (connections u ! i) p" i]
    by simp
qed

text \<open>C9: \<^verbatim>\<open>set_state\<close> to ESTABLISHED, the one way into that state, clears
  \<^verbatim>\<open>conn_timeout\<close>; and in every host that calls of the interface can produce, a connection
  in ESTABLISHED has no \<^verbatim>\<open>conn_timeout\<close> set.\<close>

theorem established_has_no_conn_timeout:
  "conn_timeout (set_state c ESTABLISHED) = timerclear
   \<and> (reachable u \<longrightarrow>
        (\<forall>c\<in>set (connections u). state c = ESTABLISHED \<longrightarrow> \<not> timerisset (conn_timeout c)))"
proof -
  have "\<not> timerisset (conn_timeout c)" if "reachable u" "c \<in> set (connections u)"
    "state c = ESTABLISHED" for c
    using reachable_timer_ok [OF that(1)] that(2,3)
    by (auto simp: timer_ok_def timerisset_def timerclear_def)
  then show ?thesis by (auto simp: set_state_def)
qed


text \<open>A host the interface produces: \<^verbatim>\<open>utcp_init\<close>, \<^verbatim>\<open>utcp_set_mtu\<close> to 3,
  \<^verbatim>\<open>utcp_connect\<close> to port 7, and the peer's SYN+ACK.\<close>

lemma host_ex_reachable: "reachable host_ex"
proof -
  have "utcp_init 0 0 1 =
          Inr \<lparr>accept = 0, pre_accept = 0, mtu = 1000, timeout = 60, connections = []\<rparr>"
    by (simp add: utcp_init_def)
  then have "reachable \<lparr>accept = 0, pre_accept = 0, mtu = 1000, timeout = 60, connections = []\<rparr>"
    by (rule reachable.init)
  from reachable.set_mtu [OF this, of 3] show ?thesis
    by (simp add: utcp_set_mtu_def host_ex_def)
qed

lemma syn_ack_received:
  "utcp_recv env_ex (Some (host_ex\<lparr>connections := [conn_syn_sent]\<rparr>))
     (Buf [7, 0, 1, 128, 99, 0, 0, 0, 10, 0, 0, 0, 3, 0, 0, 0, 3, 0, 0, 0]) =
   Some (Inr \<lparr>hret = 0, herr = None,
              host = Some (host_ex\<lparr>connections := [conn_ex\<lparr>snd_cwnd := 6\<rparr>]\<rparr>),
              hout = [Send \<lparr>hdr_src = 32769, hdr_dst = 7, hdr_seq = 10, hdr_ack = 100,
                            hdr_wnd = 3, hdr_ctl = 2, hdr_aux = 0\<rparr> []]\<rparr>)"
  by code_simp

lemma handshake_reachable: "reachable (host_ex\<lparr>connections := [conn_ex\<lparr>snd_cwnd := 6\<rparr>]\<rparr>)"
proof -
  from reachable.connect [OF host_ex_reachable conn_syn_sent_made]
  have "reachable (host_ex\<lparr>connections := [conn_syn_sent]\<rparr>)" by simp
  from reachable.recv [OF this syn_ack_received] show ?thesis by simp
qed

theorem established_has_no_conn_timeout_witness:
  "reachable (host_ex\<lparr>connections := [conn_ex\<lparr>snd_cwnd := 6\<rparr>]\<rparr>)
   \<and> state (conn_ex\<lparr>snd_cwnd := 6\<rparr>) = ESTABLISHED
   \<and> \<not> timerisset (conn_timeout (conn_ex\<lparr>snd_cwnd := 6\<rparr>))"
proof -
  have s: "state (conn_ex\<lparr>snd_cwnd := 6\<rparr>) = ESTABLISHED" by (simp add: conn_ex_def)
  from established_has_no_conn_timeout
         [of conn_ex "host_ex\<lparr>connections := [conn_ex\<lparr>snd_cwnd := 6\<rparr>]\<rparr>"]
       handshake_reachable s
  show ?thesis by simp
qed


text \<open>How \<open>conn_closing\<close> comes about: the application shuts \<open>conn_ex\<close> down, and the
  peer's FIN arrives before the acknowledgement of ours.\<close>

lemma conn_closing_reached:
  "utcp_recv_conn host_ex env_ex (conn_ex\<lparr>state := FIN_WAIT_1, snd_nxt := 11, snd_last := 11\<rparr>)
     (seg_ex 100 10 6) [] =
     Some (Inr \<lparr>ret = 0, err = None, conn = Some conn_closing,
                out = [Send \<lparr>hdr_src = 32769, hdr_dst = 7, hdr_seq = 11, hdr_ack = 101,
                             hdr_wnd = 3, hdr_ctl = 2, hdr_aux = 0\<rparr> []]\<rparr>)"
  by code_simp

text \<open>The other way into TIME\_WAIT, from FIN\_WAIT\_2 on the peer's FIN, arms the timer
  after step 4 and keeps it.\<close>

lemma fin_wait_2_time_wait_timer:
  "utcp_recv_conn host_ex env_ex
     (conn_ex\<lparr>state := FIN_WAIT_2, snd_una := 11, snd_nxt := 11, snd_last := 11\<rparr>)
     (seg_ex 100 11 6) [] =
     Some (Inr \<lparr>ret = 0, err = None,
                conn = Some (conn_ex\<lparr>state := TIME_WAIT, snd_una := 11, snd_nxt := 11,
                               snd_last := 11, rcv_nxt := 101, dupack := 1,
                               conn_timeout := \<lparr>tv_sec = 1060, tv_usec = 0\<rparr>\<rparr>),
                out = [Send \<lparr>hdr_src = 32769, hdr_dst = 7, hdr_seq = 11, hdr_ack = 101,
                             hdr_wnd = 3, hdr_ctl = 2, hdr_aux = 0\<rparr> []]\<rparr>)"
  by code_simp

end
